theory Spec2Isabelle
  imports Main "HOL-Library.Word" "HOL-Library.Sublist"
begin

section \<open>Data model\<close>

text \<open>
  The program (\<^verbatim>\<open>src/main.cpp\<close>) patches Objective-C class and category names inside a
  Mach-O file. Bytes are \<^typ>\<open>char\<close> (8 bits), buffers and \<^verbatim>\<open>std::string\<close> values are byte
  lists, buffer offsets are natural numbers, virtual addresses are 64-bit words.
\<close>

type_synonym byte = char

abbreviation NUL :: byte where
  "NUL \<equiv> CHR 0x00"

text \<open>\<^verbatim>\<open>struct CommandLineArgs\<close> (lines 23-31).\<close>

record CommandLineArgs =
  binaryPath :: string
  excludedClasses :: "string set"
  quietMode :: bool
  dryRun :: bool
  pattern :: string
  replacement :: string

text \<open>
  The load commands of one slice, as \<^verbatim>\<open>Obj->load_commands()\<close> yields them. Only the two
  segment commands are inspected; \<^verbatim>\<open>segment_command\<close> has 32-bit fields,
  \<^verbatim>\<open>segment_command_64\<close> 64-bit ones.
\<close>

datatype load_command =
    LC_SEGMENT_64 (vmaddr64: "64 word") (vmsize64: "64 word") (fileoff64: "64 word")
  | LC_SEGMENT (vmaddr32: "32 word") (vmsize32: "32 word") (fileoff32: "32 word")
  | LC_OTHER

text \<open>An \<^verbatim>\<open>llvm::Error\<close> that is not success carries a message.\<close>

datatype llvm_error = LLVMError string

text \<open>
  A section as the program sees it through \<^verbatim>\<open>SectionRef\<close>: \<^verbatim>\<open>getName()\<close> and
  \<^verbatim>\<open>getContents()\<close> are fallible; on success \<open>sec_contents\<close> is the number of bytes of the
  contents, which start at \<open>sec_offset\<close> (\<^verbatim>\<open>Sec.offset\<close>) in the slice: a window of the file
  image.
\<close>

record SectionRef =
  sec_name :: "llvm_error + string"
  sec_offset :: nat
  sec_contents :: "llvm_error + nat"

record MachOObjectFile =
  is64Bit :: bool
  archName :: string
  load_commands :: "load_command list"
  sections :: "SectionRef list"

section \<open>Address translation (lines 104-120)\<close>

fun segmentLoop :: "load_command list \<Rightarrow> 64 word \<Rightarrow> 64 word option" where
  "segmentLoop [] VA = None"
| "segmentLoop (LC_SEGMENT_64 vmaddr vmsize fileoff # rest) VA =
     (if VA \<ge> vmaddr \<and> VA < vmaddr + vmsize then Some ((VA - vmaddr) + fileoff)
      else segmentLoop rest VA)"
| "segmentLoop (LC_SEGMENT vmaddr vmsize fileoff # rest) VA =
     (if VA \<ge> ucast vmaddr \<and> VA < ucast (vmaddr + vmsize)
      then Some ((VA - ucast vmaddr) + ucast fileoff)
      else segmentLoop rest VA)"
| "segmentLoop (LC_OTHER # rest) VA = segmentLoop rest VA"

definition virtualAddressToFileOffset :: "MachOObjectFile \<Rightarrow> 64 word \<Rightarrow> 64 word option" where
  "virtualAddressToFileOffset Obj VA = segmentLoop (load_commands Obj) VA"

text \<open>
  The range test and the offset of one load command, in the words of the specification:
  the half-open range \<open>[vmaddr, vmaddr + vmsize)\<close> and \<open>fileoff + (VA - vmaddr)\<close>, as
  numbers. The end of a segment fits when \<open>vmaddr + vmsize\<close> can be represented in the
  width of the command's fields.
\<close>

fun segment_contains :: "load_command \<Rightarrow> 64 word \<Rightarrow> bool" where
  "segment_contains (LC_SEGMENT_64 vmaddr vmsize fileoff) VA =
     (unat vmaddr \<le> unat VA \<and> unat VA < unat vmaddr + unat vmsize)"
| "segment_contains (LC_SEGMENT vmaddr vmsize fileoff) VA =
     (unat vmaddr \<le> unat VA \<and> unat VA < unat vmaddr + unat vmsize)"
| "segment_contains LC_OTHER VA = False"

fun segment_offset :: "load_command \<Rightarrow> 64 word \<Rightarrow> nat" where
  "segment_offset (LC_SEGMENT_64 vmaddr vmsize fileoff) VA = unat fileoff + (unat VA - unat vmaddr)"
| "segment_offset (LC_SEGMENT vmaddr vmsize fileoff) VA = unat fileoff + (unat VA - unat vmaddr)"
| "segment_offset LC_OTHER VA = 0"

fun segment_end_fits :: "load_command \<Rightarrow> bool" where
  "segment_end_fits (LC_SEGMENT_64 vmaddr vmsize fileoff) = (unat vmaddr + unat vmsize < 2 ^ 64)"
| "segment_end_fits (LC_SEGMENT vmaddr vmsize fileoff) = (unat vmaddr + unat vmsize < 2 ^ 32)"
| "segment_end_fits LC_OTHER = True"

section \<open>Strings\<close>

text \<open>
  \<^verbatim>\<open>std::string::find(str, pos)\<close>: the lowest index \<open>p \<ge> pos\<close> at which \<open>str\<close> occurs, or
  \<^verbatim>\<open>npos\<close> (here \<open>None\<close>).
\<close>

fun findIn :: "string \<Rightarrow> string \<Rightarrow> nat \<Rightarrow> nat option" where
  "findIn pat [] p = (if pat = [] then Some p else None)"
| "findIn pat (c # cs) p = (if prefix pat (c # cs) then Some p else findIn pat cs (Suc p))"

definition str_find :: "string \<Rightarrow> string \<Rightarrow> nat \<Rightarrow> nat option" where
  "str_find s pat pos = (if pos \<le> length s then findIn pat (drop pos s) pos else None)"

text \<open>\<^verbatim>\<open>std::string::replace(pos, len, str)\<close> for \<open>pos\<close> up to the length; \<open>len\<close> is clamped to the end.\<close>

definition str_replace :: "string \<Rightarrow> nat \<Rightarrow> nat \<Rightarrow> string \<Rightarrow> string" where
  "str_replace s pos len str = take pos s @ str @ drop (pos + len) s"

text \<open>
  The replace loop of lines 166-172 (and 243-249). With an empty pattern and a non-empty
  replacement the loop would insert forever, so it is a partial function; the callers enter it
  only when the pattern is non-empty.
\<close>

partial_function (option) replaceLoop ::
  "string \<Rightarrow> string \<Rightarrow> string \<Rightarrow> nat \<Rightarrow> bool \<Rightarrow> (string \<times> bool) option" where
  "replaceLoop pat rep newName pos replaced =
     (case str_find newName pat pos of
        None \<Rightarrow> Some (newName, replaced)
      | Some p \<Rightarrow> replaceLoop pat rep (str_replace newName p (length pat) rep)
                    (p + length rep) True)"

text \<open>
  Replace mode in the words of the specification: scan left to right, replace each
  occurrence, resume after it.
\<close>

function replaceAllSpec :: "string \<Rightarrow> string \<Rightarrow> string \<Rightarrow> string" where
  "replaceAllSpec pat rep [] = []"
| "replaceAllSpec pat rep (c # cs) =
     (if pat \<noteq> [] \<and> prefix pat (c # cs)
      then rep @ replaceAllSpec pat rep (drop (length pat) (c # cs))
      else c # replaceAllSpec pat rep cs)"
  by pat_completeness auto
termination
  by (relation "measure (\<lambda>(pat, rep, s). length s)") (auto simp: neq_Nil_conv)

section \<open>The random source (lines 90-101)\<close>

text \<open>
  The static \<^verbatim>\<open>std::mt19937\<close> is a sequence of draws and the number of draws made so far;
  \<^verbatim>\<open>distribution(generator)\<close> yields an index in \<open>[0, 61]\<close>.
\<close>

datatype rng = Rng (draws: "nat \<Rightarrow> nat") (drawn: nat)

definition charset :: string where
  "charset = ''abcdefghijklmnopqrstuvwxyzABCDEFGHIJKLMNOPQRSTUVWXYZ0123456789''"

fun distribution :: "rng \<Rightarrow> nat \<times> rng" where
  "distribution (Rng f k) = (f k mod length charset, Rng f (Suc k))"

primrec generateRandomString :: "nat \<Rightarrow> rng \<Rightarrow> string \<times> rng" where
  "generateRandomString 0 g = ([], g)"
| "generateRandomString (Suc n) g =
     (case distribution g of (i, g') \<Rightarrow>
        (case generateRandomString n g' of (s, g'') \<Rightarrow> (charset ! i # s, g'')))"

section \<open>Buffers and the patch state\<close>

text \<open>
  A NUL-terminated string starting at an offset of a buffer (\<^verbatim>\<open>StringRef(const char*)\<close>,
  that is \<^verbatim>\<open>strlen\<close>). Without a terminator inside the buffer the read leaves the buffer:
  undefined behaviour, \<open>None\<close>.
\<close>

definition cstringAt :: "byte list \<Rightarrow> nat \<Rightarrow> string option" where
  "cstringAt buf off =
     (if NUL \<in> set (drop off buf) then Some (takeWhile (\<lambda>c. c \<noteq> NUL) (drop off buf))
      else None)"

text \<open>
  \<^verbatim>\<open>*(const uint64_t*)p\<close> and \<^verbatim>\<open>*(const uint32_t*)p\<close> on a little-endian host, the value
  widened to 64 bits; \<open>None\<close> when the bytes are not all inside the buffer.
\<close>

definition le_value :: "byte list \<Rightarrow> nat" where
  "le_value bs = foldr (\<lambda>c acc. of_char c + 256 * acc) bs 0"

definition loadPointer :: "byte list \<Rightarrow> nat \<Rightarrow> nat \<Rightarrow> 64 word option" where
  "loadPointer buf off PtrSize =
     (if off + PtrSize \<le> length buf then Some (of_nat (le_value (take PtrSize (drop off buf))))
      else None)"

text \<open>
  \<^verbatim>\<open>memcpy(dst + off, src, n)\<close>; \<open>None\<close> when it would read past \<open>src\<close> or write past
  \<open>dst\<close>. \<^verbatim>\<open>c_str()\<close> is the string followed by its terminator.
\<close>

definition memcpy :: "byte list \<Rightarrow> nat \<Rightarrow> byte list \<Rightarrow> nat \<Rightarrow> byte list option" where
  "memcpy dst off src n =
     (if n \<le> length src \<and> off + n \<le> length dst
      then Some (take off dst @ take n src @ drop (off + n) dst)
      else None)"

definition c_str :: "string \<Rightarrow> byte list" where
  "c_str s = s @ [NUL]"

text \<open>The lines the program prints, on \<^verbatim>\<open>outs()\<close> and on \<^verbatim>\<open>errs()\<close>.\<close>

datatype tag = CLASS | CATEGORY

datatype msg =
    SkippingExcluded string
  | Found tag string nat
  | ReplacedWith string
  | PatchingArchitecture string nat
  | DryRunComplete
  | SuccessfullyPatched string
  | ErrorOpeningBinary llvm_error
  | ErrorReadingFile string
  | FailedToGetObject llvm_error
  | FailedToPatchSlice llvm_error
  | FailedToPatchFile llvm_error
  | NotAMachO
  | ErrorOpeningForWriting string

text \<open>
  What the patchers change: the working buffer (\<^verbatim>\<open>WritableMB\<close>), the static generator and
  the standard output. The original image (\<^verbatim>\<open>OriginalMB\<close>, and the object file's own view of
  the same file) is a separate, read-only argument \<open>src\<close>.
\<close>

record pstate =
  wb :: "byte list"
  gen :: rng
  outs :: "msg list"

definition say :: "CommandLineArgs \<Rightarrow> msg list \<Rightarrow> pstate \<Rightarrow> pstate" where
  "say args ms st = (if \<not> quietMode args then st\<lparr>outs := outs st @ ms\<rparr> else st)"

section \<open>Patching one name (lines 161-193 and 238-271)\<close>

text \<open>
  The two patchers apply the same block to a name found at \<open>RealFileOffset\<close>; only the tag of
  the log line differs. In replace mode the loop starts from the original name at position 0;
  in randomization mode the new name has the length of the old one.
\<close>

definition patchName :: "tag \<Rightarrow> CommandLineArgs \<Rightarrow> nat \<Rightarrow> string \<Rightarrow> pstate \<Rightarrow> pstate option" where
  "patchName t args RealFileOffset Name st =
     (let useReplaceMode = (pattern args \<noteq> []) in
      if useReplaceMode then
        (case replaceLoop (pattern args) (replacement args) Name 0 False of
           None \<Rightarrow> None
         | Some (newName, replaced) \<Rightarrow>
             if replaced then
               (let st1 = say args [Found t Name RealFileOffset, ReplacedWith newName] st in
                case memcpy (wb st1) RealFileOffset (c_str newName) (length Name) of
                  None \<Rightarrow> None
                | Some b \<Rightarrow> Some (st1\<lparr>wb := b\<rparr>))
             else Some st)
      else
        (let st1 = say args [Found t Name RealFileOffset] st in
         case generateRandomString (length Name) (gen st1) of
           (RandomString, g) \<Rightarrow>
             (case memcpy (wb st1) RealFileOffset (c_str RandomString) (length RandomString) of
                None \<Rightarrow> None
              | Some b \<Rightarrow> Some (say args [ReplacedWith RandomString] (st1\<lparr>wb := b, gen := g\<rparr>)))))"

section \<open>The class-name section (lines 124-197)\<close>

text \<open>
  \<open>base\<close> is the file offset of the section's first byte, \<open>csize\<close> its length and \<open>pos\<close> is
  \<^verbatim>\<open>Current - Contents.begin()\<close>.
\<close>

function classNameLoop ::
  "CommandLineArgs \<Rightarrow> byte list \<Rightarrow> nat \<Rightarrow> nat \<Rightarrow> nat \<Rightarrow> pstate \<Rightarrow> pstate option" where
  "classNameLoop args src base csize pos st =
     (if pos < csize then
        (case cstringAt src (base + pos) of
           None \<Rightarrow> None
         | Some Name \<Rightarrow>
             if Name = [] then classNameLoop args src base csize (pos + 1) st
             else if Name \<in> excludedClasses args then
               classNameLoop args src base csize (pos + length Name + 1)
                 (say args [SkippingExcluded Name] st)
             else
               (case patchName CLASS args (base + pos) Name st of
                  None \<Rightarrow> None
                | Some st' \<Rightarrow> classNameLoop args src base csize (pos + length Name + 1) st'))
      else Some st)"
  by pat_completeness auto
termination
  by (relation "measure (\<lambda>(args, src, base, csize, pos, st). csize - pos)") auto

declare classNameLoop.simps [simp del]

definition patchClassNameSection ::
  "SectionRef \<Rightarrow> MachOObjectFile \<Rightarrow> byte list \<Rightarrow> nat \<Rightarrow> CommandLineArgs \<Rightarrow> pstate \<Rightarrow> pstate option" where
  "patchClassNameSection Section MachOObj src SliceOffset args st =
     (let SectionFileOffset = sec_offset Section in
      case sec_contents Section of
        Inl E \<Rightarrow> Some st
      | Inr csize \<Rightarrow> classNameLoop args src (SliceOffset + SectionFileOffset) csize 0 st)"

text \<open>
  The entries of the string table in the words of the specification: NUL-terminated
  entries packed one after the other, each with its position in the section; a zero-length
  entry is passed over by one byte.
\<close>

function classEntries :: "byte list \<Rightarrow> nat \<Rightarrow> nat \<Rightarrow> nat \<Rightarrow> (nat \<times> string) list" where
  "classEntries src base csize pos =
     (if pos < csize then
        (case cstringAt src (base + pos) of
           None \<Rightarrow> []
         | Some Name \<Rightarrow>
             if Name = [] then classEntries src base csize (pos + 1)
             else (pos, Name) # classEntries src base csize (pos + length Name + 1))
      else [])"
  by pat_completeness auto
termination
  by (relation "measure (\<lambda>(src, base, csize, pos). csize - pos)") auto

declare classEntries.simps [simp del]

section \<open>The category list (lines 201-273)\<close>

text \<open>
  One slot of the pointer array, the body of the loop at lines 217-272. \<open>continue\<close> leaves
  the state as it is. \<^verbatim>\<open>RealNameOffset\<close> is a 64-bit sum.
\<close>

definition categorySlot ::
  "MachOObjectFile \<Rightarrow> byte list \<Rightarrow> nat \<Rightarrow> CommandLineArgs \<Rightarrow> nat \<Rightarrow> nat \<Rightarrow> pstate \<Rightarrow> pstate option" where
  "categorySlot MachOObj src SliceOffset args base i st =
     (let PtrSize = (if is64Bit MachOObj then 8 else 4) in
      case loadPointer src (base + i) PtrSize of
        None \<Rightarrow> None
      | Some category_va \<Rightarrow>
          (case virtualAddressToFileOffset MachOObj category_va of
             None \<Rightarrow> Some st
           | Some category_offset \<Rightarrow>
               (case loadPointer src (SliceOffset + unat category_offset) PtrSize of
                  None \<Rightarrow> None
                | Some category_name_va \<Rightarrow>
                    (case virtualAddressToFileOffset MachOObj category_name_va of
                       None \<Rightarrow> Some st
                     | Some name_offset \<Rightarrow>
                         (let RealNameOffset = (SliceOffset + unat name_offset) mod 2 ^ 64 in
                          case cstringAt src RealNameOffset of
                            None \<Rightarrow> None
                          | Some CategoryName \<Rightarrow>
                              if CategoryName = [] then Some st
                              else patchName CATEGORY args RealNameOffset CategoryName st)))))"

function categoryLoop ::
  "MachOObjectFile \<Rightarrow> byte list \<Rightarrow> nat \<Rightarrow> CommandLineArgs \<Rightarrow> nat \<Rightarrow> nat \<Rightarrow> nat \<Rightarrow> pstate \<Rightarrow> pstate option" where
  "categoryLoop MachOObj src SliceOffset args base csize i st =
     (let PtrSize = (if is64Bit MachOObj then 8 else 4) in
      if i + PtrSize \<le> csize then
        (case categorySlot MachOObj src SliceOffset args base i st of
           None \<Rightarrow> None
         | Some st' \<Rightarrow> categoryLoop MachOObj src SliceOffset args base csize (i + PtrSize) st')
      else Some st)"
  by pat_completeness auto
termination
  by (relation "measure (\<lambda>(MachOObj, src, SliceOffset, args, base, csize, i, st). csize - i)")
    (auto split: if_splits)

declare categoryLoop.simps [simp del]

text \<open>
  The counter \<^verbatim>\<open>i\<close> is a 32-bit \<^verbatim>\<open>unsigned\<close>: for contents of \<open>2 ^ 32 - PtrSize\<close> bytes or more
  \<^verbatim>\<open>i + PtrSize\<close> wraps to 0 and the loop never ends (\<open>None\<close>). The contents start at the
  section's \<^verbatim>\<open>offset\<close> in the slice.
\<close>

definition patchCategoryListSection ::
  "SectionRef \<Rightarrow> MachOObjectFile \<Rightarrow> byte list \<Rightarrow> nat \<Rightarrow> CommandLineArgs \<Rightarrow> pstate \<Rightarrow> pstate option" where
  "patchCategoryListSection Section MachOObj src SliceOffset args st =
     (case sec_contents Section of
        Inl E \<Rightarrow> Some st
      | Inr csize \<Rightarrow>
          (let PtrSize = (if is64Bit MachOObj then 8 else 4) in
           if csize + PtrSize < 2 ^ 32
           then categoryLoop MachOObj src SliceOffset args (SliceOffset + sec_offset Section) csize 0 st
           else None))"

text \<open>
  The part of the loop body that finds the name of a slot (lines 218-236), on its own: it
  reads the original image only. The outer \<open>None\<close> is a read outside the image, the inner
  \<open>None\<close> is \<^verbatim>\<open>continue\<close>; otherwise the result is \<^verbatim>\<open>RealNameOffset\<close> and the name.
\<close>

definition categoryName ::
  "MachOObjectFile \<Rightarrow> byte list \<Rightarrow> nat \<Rightarrow> nat \<Rightarrow> (nat \<times> string) option option" where
  "categoryName MachOObj src SliceOffset slot =
     (let PtrSize = (if is64Bit MachOObj then 8 else 4) in
      case loadPointer src slot PtrSize of
        None \<Rightarrow> None
      | Some category_va \<Rightarrow>
          (case virtualAddressToFileOffset MachOObj category_va of
             None \<Rightarrow> Some None
           | Some category_offset \<Rightarrow>
               (case loadPointer src (SliceOffset + unat category_offset) PtrSize of
                  None \<Rightarrow> None
                | Some category_name_va \<Rightarrow>
                    (case virtualAddressToFileOffset MachOObj category_name_va of
                       None \<Rightarrow> Some None
                     | Some name_offset \<Rightarrow>
                         (let RealNameOffset = (SliceOffset + unat name_offset) mod 2 ^ 64 in
                          case cstringAt src RealNameOffset of
                            None \<Rightarrow> None
                          | Some CategoryName \<Rightarrow>
                              if CategoryName = [] then Some None
                              else Some (Some (RealNameOffset, CategoryName)))))))"

text \<open>
  The names of a list of slots, in the order of the slots, and the names of all slots of a
  category list of \<open>csize\<close> bytes that starts at \<open>base\<close>: the slots are at
  \<open>base + k * PtrSize\<close> for \<open>k < csize div PtrSize\<close>.
\<close>

fun categoryNamesAt ::
  "MachOObjectFile \<Rightarrow> byte list \<Rightarrow> nat \<Rightarrow> nat list \<Rightarrow> (nat \<times> string) list option" where
  "categoryNamesAt MachOObj src SliceOffset [] = Some []"
| "categoryNamesAt MachOObj src SliceOffset (slot # slots) =
     (case categoryName MachOObj src SliceOffset slot of
        None \<Rightarrow> None
      | Some r \<Rightarrow>
          (case categoryNamesAt MachOObj src SliceOffset slots of
             None \<Rightarrow> None
           | Some es \<Rightarrow> Some (case r of None \<Rightarrow> es | Some e \<Rightarrow> e # es)))"

definition categoryNames ::
  "MachOObjectFile \<Rightarrow> byte list \<Rightarrow> nat \<Rightarrow> nat \<Rightarrow> nat \<Rightarrow> (nat \<times> string) list option" where
  "categoryNames MachOObj src SliceOffset base csize =
     (let PtrSize = (if is64Bit MachOObj then 8 else 4) in
      categoryNamesAt MachOObj src SliceOffset
        (map (\<lambda>k. base + k * PtrSize) [0 ..< csize div PtrSize]))"

text \<open>
  The patch block applied to a list of names, one after the other.
\<close>

fun patchAll :: "tag \<Rightarrow> CommandLineArgs \<Rightarrow> (nat \<times> string) list \<Rightarrow> pstate \<Rightarrow> pstate option" where
  "patchAll t args [] st = Some st"
| "patchAll t args ((off, Name) # es) st =
     (case patchName t args off Name st of
        None \<Rightarrow> None
      | Some st' \<Rightarrow> patchAll t args es st')"

section \<open>One slice (lines 277-301)\<close>

text \<open>
  The result is the \<^verbatim>\<open>llvm::Error\<close> returned (\<open>None\<close> for success) with the state reached;
  the outer \<open>None\<close> is a run without a defined result.
\<close>

fun sectionLoop ::
  "MachOObjectFile \<Rightarrow> byte list \<Rightarrow> nat \<Rightarrow> CommandLineArgs \<Rightarrow> SectionRef list \<Rightarrow> pstate
     \<Rightarrow> (llvm_error option \<times> pstate) option" where
  "sectionLoop MachOObj src SliceOffset args [] st = Some (None, st)"
| "sectionLoop MachOObj src SliceOffset args (Section # rest) st =
     (case sec_name Section of
        Inl E \<Rightarrow> Some (Some E, st)
      | Inr SectionName \<Rightarrow>
          if SectionName = ''__objc_classname'' then
            (case patchClassNameSection Section MachOObj src SliceOffset args st of
               None \<Rightarrow> None
             | Some st' \<Rightarrow> sectionLoop MachOObj src SliceOffset args rest st')
          else if SectionName = ''__objc_catlist'' then
            (case patchCategoryListSection Section MachOObj src SliceOffset args st of
               None \<Rightarrow> None
             | Some st' \<Rightarrow> sectionLoop MachOObj src SliceOffset args rest st')
          else sectionLoop MachOObj src SliceOffset args rest st)"

definition patchMachOSlice ::
  "MachOObjectFile \<Rightarrow> byte list \<Rightarrow> nat \<Rightarrow> CommandLineArgs \<Rightarrow> pstate
     \<Rightarrow> (llvm_error option \<times> pstate) option" where
  "patchMachOSlice MachOObj src SliceOffset args st =
     sectionLoop MachOObj src SliceOffset args (sections MachOObj)
       (say args [PatchingArchitecture (archName MachOObj) SliceOffset] st)"

section \<open>Command line (lines 36-87)\<close>

text \<open>
  What the CLI11 parser has stored when the program's callback runs. \<open>cli_accepted\<close> is
  false when the library itself rejects the command line (missing or non-existent file,
  \<^verbatim>\<open>--replace\<close> without exactly two values, \<^verbatim>\<open>--help\<close>).
\<close>

record cli_options =
  cli_accepted :: bool
  opt_binary_to_patch :: string
  opt_quiet :: bool
  opt_dry_run :: bool
  opt_exclude :: "string set"
  opt_replace :: "string list"

definition parseCommandLine :: "cli_options \<Rightarrow> CommandLineArgs option" where
  "parseCommandLine opts =
     (let args = \<lparr>binaryPath = opt_binary_to_patch opts, excludedClasses = opt_exclude opts,
                  quietMode = opt_quiet opts, dryRun = opt_dry_run opts,
                  pattern = [], replacement = []\<rparr> in
      if \<not> cli_accepted opts then None
      else
        (case opt_replace opts of
           [] \<Rightarrow> Some args
         | [p, r] \<Rightarrow>
             if p = [] then None
             else if length p \<noteq> length r then None
             else Some (args\<lparr>pattern := p, replacement := r\<rparr>)
         | _ \<Rightarrow> None))"

section \<open>The program (lines 305-376)\<close>

text \<open>
  What \<^verbatim>\<open>createBinary\<close> found: a universal binary with, per architecture, the slice's
  offset and the object file or the error of \<^verbatim>\<open>getAsObjectFile\<close>; a thin Mach-O object;
  or a binary of another kind.
\<close>

datatype binary =
    MachOUniversalBinary "(nat \<times> (llvm_error + MachOObjectFile)) list"
  | MachOObject MachOObjectFile
  | OtherBinary

text \<open>
  The surroundings of one run: the parsed command line, the file on disk, what the two
  loads of the file return, whether the file can be opened for writing, and the generator as
  seeded.
\<close>

record world =
  cli :: cli_options
  disk :: "byte list"
  createBinary :: "llvm_error + binary"
  getFile :: "string + byte list"
  openForWriting :: "string option"
  seeded :: rng

text \<open>File accesses in program order, to tell when the file is read and when written.\<close>

datatype file_op = CreateBinary string | GetFile string | OpenForWriting string | Write "byte list"

record result =
  exit_code :: int
  file_ops :: "file_op list"
  stdout :: "msg list"
  stderr :: "msg list"

text \<open>The buffers written to the file, in order, and the file after the run.\<close>

fun writes_of :: "file_op list \<Rightarrow> byte list list" where
  "writes_of [] = []"
| "writes_of (Write b # ops) = b # writes_of ops"
| "writes_of (_ # ops) = writes_of ops"

definition disk_after :: "world \<Rightarrow> result \<Rightarrow> byte list" where
  "disk_after w r = last (disk w # writes_of (file_ops r))"

text \<open>The loop over the architectures of a universal binary (lines 334-345).\<close>

fun universalLoop ::
  "byte list \<Rightarrow> CommandLineArgs \<Rightarrow> (nat \<times> (llvm_error + MachOObjectFile)) list
     \<Rightarrow> pstate \<times> msg list \<Rightarrow> (pstate \<times> msg list) option" where
  "universalLoop src args [] (st, errs) = Some (st, errs)"
| "universalLoop src args ((Offset, MachOObjOrErr) # rest) (st, errs) =
     (case MachOObjOrErr of
        Inl E \<Rightarrow> universalLoop src args rest (st, errs @ [FailedToGetObject E])
      | Inr MachOObj \<Rightarrow>
          (case patchMachOSlice MachOObj src Offset args st of
             None \<Rightarrow> None
           | Some (None, st') \<Rightarrow> universalLoop src args rest (st', errs)
           | Some (Some E, st') \<Rightarrow> universalLoop src args rest (st', errs @ [FailedToPatchSlice E])))"

text \<open>
  Lines 333-354: the slices are patched in memory. \<open>Inl\<close> is the early \<^verbatim>\<open>return 1\<close>, \<open>Inr\<close>
  is the case in which the program goes on to line 356; both carry the state reached and what
  was printed on \<^verbatim>\<open>errs()\<close>.
\<close>

definition patchBinary ::
  "binary \<Rightarrow> byte list \<Rightarrow> CommandLineArgs \<Rightarrow> pstate
     \<Rightarrow> (pstate \<times> msg list + pstate \<times> msg list) option" where
  "patchBinary Bin src args st =
     (case Bin of
        MachOUniversalBinary objects \<Rightarrow>
          (case universalLoop src args objects (st, []) of
             None \<Rightarrow> None
           | Some r \<Rightarrow> Some (Inr r))
      | MachOObject MachOObj \<Rightarrow>
          (case patchMachOSlice MachOObj src 0 args st of
             None \<Rightarrow> None
           | Some (Some E, st') \<Rightarrow> Some (Inl (st', [FailedToPatchFile E]))
           | Some (None, st') \<Rightarrow> Some (Inr (st', [])))
      | OtherBinary \<Rightarrow> Some (Inl (st, [NotAMachO])))"

text \<open>Lines 356-375: dry run, or the one write of the working buffer.\<close>

definition persist :: "world \<Rightarrow> CommandLineArgs \<Rightarrow> file_op list \<Rightarrow> pstate \<times> msg list \<Rightarrow> result" where
  "persist w args ops r =
     (case r of (st, errs) \<Rightarrow>
        if dryRun args then
          \<lparr>exit_code = 0, file_ops = ops, stdout = outs (say args [DryRunComplete] st),
           stderr = errs\<rparr>
        else
          (case openForWriting w of
             Some EC \<Rightarrow>
               \<lparr>exit_code = 1, file_ops = ops @ [OpenForWriting (binaryPath args)],
                stdout = outs st, stderr = errs @ [ErrorOpeningForWriting EC]\<rparr>
           | None \<Rightarrow>
               \<lparr>exit_code = 0,
                file_ops = ops @ [OpenForWriting (binaryPath args), Write (wb st)],
                stdout = outs (say args [SuccessfullyPatched (binaryPath args)] st),
                stderr = errs\<rparr>))"

text \<open>
  What the command-line library itself prints when it rejects the command line is not part
  of the model.
\<close>

definition main :: "world \<Rightarrow> result option" where
  "main w =
     (case parseCommandLine (cli w) of
        None \<Rightarrow> Some \<lparr>exit_code = 1, file_ops = [], stdout = [], stderr = []\<rparr>
      | Some args \<Rightarrow>
          (case createBinary w of
             Inl E \<Rightarrow>
               Some \<lparr>exit_code = 1, file_ops = [CreateBinary (binaryPath args)], stdout = [],
                     stderr = [ErrorOpeningBinary E]\<rparr>
           | Inr Bin \<Rightarrow>
               (let ops = [CreateBinary (binaryPath args), GetFile (binaryPath args)] in
                case getFile w of
                  Inl EC \<Rightarrow>
                    Some \<lparr>exit_code = 1, file_ops = ops, stdout = [],
                          stderr = [ErrorReadingFile EC]\<rparr>
                | Inr OriginalMB \<Rightarrow>
                    (case patchBinary Bin OriginalMB args
                            \<lparr>wb = OriginalMB, gen = seeded w, outs = []\<rparr> of
                       None \<Rightarrow> None
                     | Some (Inl (st, errs)) \<Rightarrow>
                         Some \<lparr>exit_code = 1, file_ops = ops, stdout = outs st, stderr = errs\<rparr>
                     | Some (Inr r) \<Rightarrow> Some (persist w args ops r)))))"

section \<open>Concrete inputs\<close>

definition example_options :: cli_options where
  "example_options = \<lparr>cli_accepted = True, opt_binary_to_patch = ''a.out'', opt_quiet = False,
     opt_dry_run = False, opt_exclude = {''Foo''}, opt_replace = [''Foo'', ''Bar'']\<rparr>"

definition example_args :: CommandLineArgs where
  "example_args = \<lparr>binaryPath = ''a.out'', excludedClasses = {''Foo''}, quietMode = False,
     dryRun = False, pattern = ''Foo'', replacement = ''Bar''\<rparr>"

definition example_state :: "byte list \<Rightarrow> pstate" where
  "example_state buf = \<lparr>wb = buf, gen = Rng id 0, outs = []\<rparr>"

text \<open>
  A 32-bit slice of twelve bytes: the class-name table \<open>Foo\<close> with its terminator at
  offset 0, a category list of one slot at offset 4 that points to a category record at
  offset 8, whose name pointer leads back to the string at offset 0. One segment maps
  virtual addresses to the same file offsets.
\<close>

definition example_image :: "byte list" where
  "example_image = ''Foo'' @ [NUL, CHR 0x08, NUL, NUL, NUL, NUL, NUL, NUL, NUL]"

definition class_section :: SectionRef where
  "class_section = \<lparr>sec_name = Inr ''__objc_classname'', sec_offset = 0, sec_contents = Inr 4\<rparr>"

definition category_section :: SectionRef where
  "category_section = \<lparr>sec_name = Inr ''__objc_catlist'', sec_offset = 4, sec_contents = Inr 4\<rparr>"

definition unnamed_section :: SectionRef where
  "unnamed_section = \<lparr>sec_name = Inl (LLVMError ''bad name''), sec_offset = 0, sec_contents = Inr 0\<rparr>"

definition unreadable_section :: SectionRef where
  "unreadable_section = \<lparr>sec_name = Inr ''__objc_classname'', sec_offset = 0,
     sec_contents = Inl (LLVMError ''bad contents'')\<rparr>"

definition example_object :: MachOObjectFile where
  "example_object = \<lparr>is64Bit = False, archName = ''i386'',
     load_commands = [LC_SEGMENT 0 0x100 0], sections = [class_section, category_section]\<rparr>"

definition example_world :: world where
  "example_world = \<lparr>cli = example_options, disk = example_image,
     createBinary = Inr (MachOObject example_object), getFile = Inr example_image,
     openForWriting = None, seeded = Rng id 0\<rparr>"

definition rejected_world :: world where
  "rejected_world = example_world\<lparr>cli := example_options\<lparr>opt_replace := [''AB'', ''C'']\<rparr>\<rparr>"

definition dry_run_world :: world where
  "dry_run_world = example_world\<lparr>cli := example_options\<lparr>opt_dry_run := True\<rparr>\<rparr>"

definition failing_object :: MachOObjectFile where
  "failing_object = example_object\<lparr>archName := ''arm64'', sections := [unnamed_section]\<rparr>"

definition universal_world :: world where
  "universal_world = example_world\<lparr>disk := example_image @ example_image,
     getFile := Inr (example_image @ example_image),
     createBinary := Inr (MachOUniversalBinary [(0, Inr failing_object), (12, Inr example_object)])\<rparr>"

definition universal_dry_run_world :: world where
  "universal_dry_run_world = universal_world\<lparr>cli := example_options\<lparr>opt_dry_run := True\<rparr>\<rparr>"

definition thin_failing_world :: world where
  "thin_failing_world = example_world\<lparr>createBinary := Inr (MachOObject failing_object)\<rparr>"

text \<open>
  A 32-bit slice of 24 bytes whose segment maps the addresses from \<open>0x1000\<close> on to the
  file: a category list of two slots at offset 0, the names \<open>Foo\<close> and \<open>Zoo\<close> at offsets
  8 and 12, and two category records at offsets 16 and 20 whose first fields hold the
  addresses of the two names.
\<close>

definition chain_image :: "byte list" where
  "chain_image = [CHR 0x10, CHR 0x10, NUL, NUL, CHR 0x14, CHR 0x10, NUL, NUL] @ ''Foo'' @ [NUL]
     @ ''Zoo'' @ [NUL] @ [CHR 0x08, CHR 0x10, NUL, NUL, CHR 0x0C, CHR 0x10, NUL, NUL]"

definition chain_section :: SectionRef where
  "chain_section = \<lparr>sec_name = Inr ''__objc_catlist'', sec_offset = 0, sec_contents = Inr 8\<rparr>"

definition chain_object :: MachOObjectFile where
  "chain_object = \<lparr>is64Bit = False, archName = ''i386'',
     load_commands = [LC_SEGMENT 0x1000 0x100 0], sections = [chain_section]\<rparr>"

text \<open>
  The example slice with a category record at offset 8 whose name pointer is the address of
  the record itself: the name string starts with the bytes of the pointer field. The run
  is in randomization mode.
\<close>

definition self_image :: "byte list" where
  "self_image = ''Foo'' @ [NUL, CHR 0x08, NUL, NUL, NUL, CHR 0x08, NUL, NUL, NUL]"

definition self_world :: world where
  "self_world = example_world\<lparr>cli := example_options\<lparr>opt_replace := []\<rparr>, disk := self_image,
     getFile := Inr self_image\<rparr>"

section \<open>Unfolding the model on concrete inputs\<close>

lemmas eval_defs = patchMachOSlice_def patchClassNameSection_def patchCategoryListSection_def
  classNameLoop.simps categoryLoop.simps categorySlot_def loadPointer_def le_value_def
  virtualAddressToFileOffset_def cstringAt_def patchName_def replaceLoop.simps
  str_find_def str_replace_def say_def memcpy_def c_str_def charset_def

lemmas main_defs = main_def parseCommandLine_def patchBinary_def persist_def disk_after_def

section \<open>Properties of the string operations\<close>

text \<open>
  What a search that starts at the head of a string says about the specification's scan:
  no occurrence, or the first occurrence with nothing to replace in front of it.
\<close>

lemma findIn_None:
  "pat \<noteq> [] \<Longrightarrow> findIn pat xs p = None \<Longrightarrow> \<not> sublist pat xs \<and> replaceAllSpec pat rep xs = xs"
  by (induction xs arbitrary: p) (auto split: if_splits simp: sublist_Cons_right)

lemma findIn_Some:
  "pat \<noteq> [] \<Longrightarrow> findIn pat xs p = Some q \<Longrightarrow>
     \<exists>pre post. xs = pre @ pat @ post \<and> q = p + length pre \<and>
       replaceAllSpec pat rep xs = pre @ rep @ replaceAllSpec pat rep post"
proof (induction xs arbitrary: p)
  case Nil
  then show ?case by simp
next
  case (Cons c cs)
  show ?case
  proof (cases "prefix pat (c # cs)")
    case True
    then obtain post where "c # cs = pat @ post" by (auto simp: prefix_def)
    then have "drop (length pat) (c # cs) = post" by simp
    moreover have "q = p" using True Cons.prems by simp
    moreover have "replaceAllSpec pat rep (c # cs) =
        rep @ replaceAllSpec pat rep (drop (length pat) (c # cs))"
      using True Cons.prems(1) by simp
    ultimately have "c # cs = [] @ pat @ post \<and> q = p + length ([]::string) \<and>
       replaceAllSpec pat rep (c # cs) = [] @ rep @ replaceAllSpec pat rep post"
      using \<open>c # cs = pat @ post\<close> by simp
    then show ?thesis by blast
  next
    case False
    with Cons.prems have "findIn pat cs (Suc p) = Some q" by simp
    from Cons.IH [OF Cons.prems(1) this] obtain pre post where
      "cs = pre @ pat @ post" "q = Suc p + length pre"
      "replaceAllSpec pat rep cs = pre @ rep @ replaceAllSpec pat rep post" by blast
    with False have "c # cs = (c # pre) @ pat @ post \<and> q = p + length (c # pre) \<and>
       replaceAllSpec pat rep (c # cs) = (c # pre) @ rep @ replaceAllSpec pat rep post"
      by simp
    then show ?thesis by blast
  qed
qed

text \<open>
  The replace loop from any position: the part before the cursor is kept, the rest is
  scanned as the specification says.
\<close>

lemma replaceLoop_spec:
  assumes "pat \<noteq> []" "length rep = length pat"
  shows "pos \<le> length s \<Longrightarrow>
    replaceLoop pat rep s pos b =
      Some (take pos s @ replaceAllSpec pat rep (drop pos s), b \<or> sublist pat (drop pos s))"
proof (induction "length s - pos" arbitrary: s pos b rule: less_induct)
  case less
  show ?case
  proof (cases "findIn pat (drop pos s) pos")
    case None
    with findIn_None [OF assms(1) None, of rep] less.prems show ?thesis
      by (subst replaceLoop.simps) (simp add: str_find_def)
  next
    case (Some q)
    from findIn_Some [OF assms(1) Some, of rep] obtain pre post where
      d: "drop pos s = pre @ pat @ post" and q: "q = pos + length pre"
      and r: "replaceAllSpec pat rep (drop pos s) = pre @ rep @ replaceAllSpec pat rep post"
      by blast
    have s: "s = take pos s @ pre @ pat @ post"
      using d by (metis append_take_drop_id)
    have lt: "length (take pos s) = pos" using less.prems by simp
    define s' where "s' = str_replace s q (length pat) rep"
    have s'eq: "s' = take pos s @ pre @ rep @ post"
      unfolding s'_def str_replace_def
      apply (subst (1 2) s)
      using lt q by (simp add: )
    have "length s = length (take pos s @ pre @ pat @ post)"
      using s by simp
    then have len: "length s' = length s"
      using s'eq assms(2) by simp
    have pos': "q + length rep \<le> length s'"
      using s'eq lt q by simp
    have "length s' - (q + length rep) < length s - pos"
      using len assms q pos' by (cases pat) auto
    from less.hyps [OF this pos', of True]
    have "replaceLoop pat rep s' (q + length rep) True =
      Some (take (q + length rep) s' @ replaceAllSpec pat rep (drop (q + length rep) s'), True)"
      by simp
    moreover have "take (q + length rep) s' = take pos s @ pre @ rep"
      using s'eq lt q by simp
    moreover have "drop (q + length rep) s' = post"
      using s'eq lt q by simp
    moreover have "sublist pat (drop pos s)"
      unfolding d by (simp add: sublist_appendI)
    ultimately show ?thesis
      using Some less.prems r
      by (subst replaceLoop.simps) (simp add: str_find_def s'_def)
  qed
qed

lemma length_replaceAllSpec:
  "length rep = length pat \<Longrightarrow> length (replaceAllSpec pat rep s) = length s"
proof (induction pat rep s rule: replaceAllSpec.induct)
  case (1 pat rep)
  then show ?case by simp
next
  case (2 pat rep c cs)
  then show ?case by (auto dest: prefix_length_le)
qed

lemma length_generateRandomString: "length (fst (generateRandomString n g)) = n"
proof (induction n arbitrary: g)
  case 0
  then show ?case by simp
next
  case (Suc n)
  obtain i g' where d: "distribution g = (i, g')" by (cases "distribution g")
  obtain s g'' where r: "generateRandomString n g' = (s, g'')"
    by (cases "generateRandomString n g'")
  from Suc [of g'] r have "length s = n" by simp
  with d r show ?case by simp
qed

lemma wb_say [simp]: "wb (say args ms st) = wb st"
  by (simp add: say_def)

lemma gen_say [simp]: "gen (say args ms st) = gen st"
  by (simp add: say_def)

lemma memcpy_c_str:
  "length new = n \<Longrightarrow>
   memcpy dst off (c_str new) n =
     (if off + n \<le> length dst then Some (take off dst @ new @ drop (off + n) dst) else None)"
  by (simp add: memcpy_def c_str_def)

text \<open>
  The patch block in closed form, for each mode.
\<close>

lemma patchName_replace:
  assumes "pattern args \<noteq> []" "length (replacement args) = length (pattern args)"
  shows "patchName t args off Name st =
    (if sublist (pattern args) Name then
       (if off + length Name \<le> length (wb st) then
          Some ((say args [Found t Name off,
                   ReplacedWith (replaceAllSpec (pattern args) (replacement args) Name)] st)
                \<lparr>wb := take off (wb st) @ replaceAllSpec (pattern args) (replacement args) Name
                     @ drop (off + length Name) (wb st)\<rparr>)
        else None)
     else Some st)"
  using assms replaceLoop_spec [OF assms, of 0 Name False]
  by (simp add: patchName_def memcpy_c_str length_replaceAllSpec)

lemma patchName_random:
  assumes "pattern args = []"
  shows "patchName t args off Name st =
    (case generateRandomString (length Name) (gen st) of (RandomString, g) \<Rightarrow>
       if off + length Name \<le> length (wb st) then
         Some (say args [ReplacedWith RandomString]
                ((say args [Found t Name off] st)
                  \<lparr>wb := take off (wb st) @ RandomString @ drop (off + length Name) (wb st),
                   gen := g\<rparr>))
       else None)"
proof -
  obtain r g where rg: "generateRandomString (length Name) (gen st) = (r, g)"
    by (cases "generateRandomString (length Name) (gen st)")
  then have "length r = length Name"
    using length_generateRandomString [of "length Name" "gen st"] by simp
  with rg assms show ?thesis
    by (simp add: patchName_def memcpy_c_str)
qed

text \<open>
  Frame properties: a copy of \<open>n\<close> bytes to \<open>off\<close> changes nothing outside
  \<open>[off, off + n)\<close>, and the patch block copies exactly the length of the name.
\<close>

lemma memcpy_frame:
  assumes "memcpy dst off s n = Some b"
  shows "length b = length dst"
    and "j < length dst \<Longrightarrow> j < off \<or> off + n \<le> j \<Longrightarrow> b ! j = dst ! j"
proof -
  from assms have n: "n \<le> length s" "off + n \<le> length dst"
    and b: "b = take off dst @ take n s @ drop (off + n) dst"
    by (auto simp: memcpy_def split: if_splits)
  show "length b = length dst" using n b by simp
  show "b ! j = dst ! j" if "j < length dst" "j < off \<or> off + n \<le> j"
    using that n b by (auto simp: nth_append min_def)
qed

lemma patchName_frame:
  assumes "patchName t args off Name st = Some st'"
  shows "length (wb st') = length (wb st)"
    and "j < length (wb st) \<Longrightarrow> j < off \<or> off + length Name \<le> j \<Longrightarrow> wb st' ! j = wb st ! j"
proof -
  have "length (wb st') = length (wb st) \<and>
        (j < length (wb st) \<longrightarrow> j < off \<or> off + length Name \<le> j \<longrightarrow> wb st' ! j = wb st ! j)"
  proof (cases "pattern args = []")
    case True
    obtain r g where rg: "generateRandomString (length Name) (gen st) = (r, g)"
      by (cases "generateRandomString (length Name) (gen st)")
    then have lr: "length r = length Name"
      using length_generateRandomString [of "length Name" "gen st"] by simp
    from assms True rg obtain b where
      m: "memcpy (wb st) off (c_str r) (length r) = Some b" and "wb st' = b"
      by (auto simp: patchName_def split: option.splits)
    with memcpy_frame [OF m] lr show ?thesis by auto
  next
    case False
    show ?thesis
    proof (cases "replaceLoop (pattern args) (replacement args) Name 0 False")
      case None
      with assms False show ?thesis by (simp add: patchName_def)
    next
      case (Some res)
      obtain newName replaced where res: "res = (newName, replaced)" by (cases res)
      show ?thesis
      proof (cases replaced)
        case True
        with assms False Some res obtain b where
          m: "memcpy (wb st) off (c_str newName) (length Name) = Some b" and "wb st' = b"
          by (auto simp: patchName_def split: option.splits)
        with memcpy_frame [OF m] show ?thesis by auto
      next
        case notrep: False
        with assms False Some res show ?thesis by (simp add: patchName_def)
      qed
    qed
  qed
  then show "length (wb st') = length (wb st)"
    and "j < length (wb st) \<Longrightarrow> j < off \<or> off + length Name \<le> j \<Longrightarrow> wb st' ! j = wb st ! j"
    by auto
qed

lemma cstringAt_Some:
  assumes "cstringAt buf off = Some Name"
  shows "off + length Name < length buf" and "buf ! (off + length Name) = NUL"
    and "NUL \<notin> set Name" and "Name = take (length Name) (drop off buf)"
proof -
  define r where "r = drop off buf"
  define P where "P = (\<lambda>c::char. c \<noteq> NUL)"
  from assms have nul: "NUL \<in> set r" and N: "Name = takeWhile P r"
    by (auto simp: cstringAt_def r_def P_def split: if_splits)
  have "takeWhile P r \<noteq> r"
    using nul by (auto simp: P_def)
  then have "length (takeWhile P r) \<noteq> length r"
    using takeWhile_eq_take [of P r] by (metis take_all order_refl)
  then have lt: "length (takeWhile P r) < length r"
    using length_takeWhile_le [of P r] by linarith
  then show "off + length Name < length buf"
    by (simp add: N r_def)
  from nth_length_takeWhile [OF lt] have "r ! length (takeWhile P r) = NUL"
    by (simp add: P_def)
  then show "buf ! (off + length Name) = NUL"
    using lt by (simp add: N r_def)
  show "NUL \<notin> set Name"
    by (auto simp: N P_def dest: set_takeWhileD)
  show "Name = take (length Name) (drop off buf)"
    using takeWhile_eq_take [of P r] by (simp add: N r_def)
qed

lemma parseCommandLine_Some:
  assumes "parseCommandLine opts = Some args"
  shows "length (replacement args) = length (pattern args)"
    and "binaryPath args = opt_binary_to_patch opts" and "dryRun args = opt_dry_run opts"
  using assms
  by (auto simp: parseCommandLine_def Let_def split: if_splits list.splits)

text \<open>
  The replace loop returns for every non-empty pattern, whatever the replacement: each
  round shortens the part of the string behind the cursor.
\<close>

lemma replaceLoop_terminates:
  assumes "pat \<noteq> []"
  shows "\<exists>res. replaceLoop pat rep s pos b = Some res"
proof (induction "length s - pos" arbitrary: s pos b rule: less_induct)
  case less
  show ?case
  proof (cases "str_find s pat pos")
    case None
    then show ?thesis by (subst replaceLoop.simps) simp
  next
    case (Some q)
    then have le: "pos \<le> length s" and f: "findIn pat (drop pos s) pos = Some q"
      by (auto simp: str_find_def split: if_splits)
    from findIn_Some [OF assms f, of rep] obtain pre post where
      d: "drop pos s = pre @ pat @ post" and q: "q = pos + length pre" by blast
    have "length (drop pos s) = length pre + length pat + length post"
      unfolding d by simp
    then have ls: "length s = pos + length pre + length pat + length post"
      using le by simp
    define s' where "s' = str_replace s q (length pat) rep"
    have "length s' = q + length rep + length post"
      unfolding s'_def str_replace_def using ls q by simp
    then have "length s' - (q + length rep) < length s - pos"
      using ls q assms by (cases pat) auto
    from less [OF this, of True] Some show ?thesis
      by (subst replaceLoop.simps) (simp add: s'_def)
  qed
qed

section \<open>Properties of address translation\<close>

text \<open>
  For a segment whose end fits, the range test of the program is the numeric one, and the
  offset the program returns is the numeric one as a 64-bit value.
\<close>

lemma unat_ucast_32_64: "unat (ucast (x :: 32 word) :: 64 word) = unat x"
proof -
  have "unat x < 2 ^ 32" using unsigned_less [of x] by simp
  then have "unat x < 2 ^ 64" by simp
  then show ?thesis
    by (simp add: unsigned_ucast_eq take_bit_nat_eq_self)
qed

lemma range_test_64:
  fixes vmaddr vmsize VA :: "64 word"
  assumes "unat vmaddr + unat vmsize < 2 ^ 64"
  shows "VA \<ge> vmaddr \<and> VA < vmaddr + vmsize \<longleftrightarrow>
           unat vmaddr \<le> unat VA \<and> unat VA < unat vmaddr + unat vmsize"
proof -
  have "unat (vmaddr + vmsize) = unat vmaddr + unat vmsize"
    using assms by (simp add: unat_word_ariths)
  then show ?thesis
    by (simp add: word_le_nat_alt word_less_nat_alt)
qed

lemma range_test_32:
  fixes vmaddr vmsize :: "32 word" and VA :: "64 word"
  assumes "unat vmaddr + unat vmsize < 2 ^ 32"
  shows "VA \<ge> ucast vmaddr \<and> VA < ucast (vmaddr + vmsize) \<longleftrightarrow>
           unat vmaddr \<le> unat VA \<and> unat VA < unat vmaddr + unat vmsize"
proof -
  have "unat (vmaddr + vmsize) = unat vmaddr + unat vmsize"
    using assms by (simp add: unat_word_ariths)
  then show ?thesis
    by (simp add: word_le_nat_alt word_less_nat_alt unat_ucast_32_64)
qed

lemma offset_value:
  fixes a f VA :: "64 word"
  assumes "unat a \<le> unat VA"
  shows "(VA - a) + f = of_nat (unat f + (unat VA - unat a))"
proof -
  have "a \<le> VA" using assms by (simp add: word_le_nat_alt)
  then have u: "unat (VA - a) = unat VA - unat a" by (rule unat_sub)
  have "(of_nat (unat (VA - a)) :: 64 word) = VA - a" by simp
  then have "(of_nat (unat VA - unat a) :: 64 word) = VA - a"
    unfolding u .
  then show ?thesis by simp
qed

lemma segmentLoop_first:
  assumes "\<forall>lc \<in> set cmds. segment_end_fits lc"
  shows "segmentLoop cmds VA =
     (case List.find (\<lambda>lc. segment_contains lc VA) cmds of
        None \<Rightarrow> None
      | Some lc \<Rightarrow> Some (of_nat (segment_offset lc VA)))"
  using assms
proof (induction cmds)
  case Nil
  show ?case by simp
next
  case (Cons lc cmds)
  then have IH: "segmentLoop cmds VA =
     (case List.find (\<lambda>lc. segment_contains lc VA) cmds of
        None \<Rightarrow> None
      | Some lc \<Rightarrow> Some (of_nat (segment_offset lc VA)))"
    and fits: "segment_end_fits lc"
    by simp_all
  show ?case
  proof (cases lc)
    case (LC_SEGMENT_64 a s f)
    with fits have "unat a + unat s < 2 ^ 64" by simp
    from range_test_64 [OF this, of VA] IH LC_SEGMENT_64 show ?thesis
      by (simp add: offset_value)
  next
    case (LC_SEGMENT a s f)
    with fits have "unat a + unat s < 2 ^ 32" by simp
    from range_test_32 [OF this, of VA] IH LC_SEGMENT show ?thesis
      using offset_value [of "ucast a" VA "ucast f"]
      by (simp add: unat_ucast_32_64)
  next
    case LC_OTHER
    with IH show ?thesis by simp
  qed
qed

section \<open>Properties of the class-name loop\<close>

lemma outs_say: "set (outs st) \<subseteq> set (outs (say args ms st))"
  by (auto simp: say_def)

lemma patchName_outs:
  assumes "patchName t args off Name st = Some st'"
  shows "set (outs st) \<subseteq> set (outs st')"
  using assms
  by (auto simp: patchName_def say_def Let_def split: option.splits if_splits prod.splits)

text \<open>
  The two loops over the class-name table, one case of the loop body at a time.
\<close>

lemma classEntries_end: "\<not> pos < csize \<Longrightarrow> classEntries src base csize pos = []"
  by (subst classEntries.simps) simp

lemma classEntries_fault:
  "pos < csize \<Longrightarrow> cstringAt src (base + pos) = None \<Longrightarrow> classEntries src base csize pos = []"
  by (subst classEntries.simps) simp

lemma classEntries_empty:
  "pos < csize \<Longrightarrow> cstringAt src (base + pos) = Some [] \<Longrightarrow>
     classEntries src base csize pos = classEntries src base csize (pos + 1)"
  by (subst classEntries.simps) simp

lemma classEntries_entry:
  "pos < csize \<Longrightarrow> cstringAt src (base + pos) = Some Name \<Longrightarrow> Name \<noteq> [] \<Longrightarrow>
     classEntries src base csize pos =
       (pos, Name) # classEntries src base csize (pos + length Name + 1)"
  by (subst classEntries.simps) simp

lemma classNameLoop_end: "\<not> pos < csize \<Longrightarrow> classNameLoop args src base csize pos st = Some st"
  by (subst classNameLoop.simps) simp

lemma classNameLoop_fault:
  "pos < csize \<Longrightarrow> cstringAt src (base + pos) = None \<Longrightarrow>
     classNameLoop args src base csize pos st = None"
  by (subst classNameLoop.simps) simp

lemma classNameLoop_empty:
  "pos < csize \<Longrightarrow> cstringAt src (base + pos) = Some [] \<Longrightarrow>
     classNameLoop args src base csize pos st = classNameLoop args src base csize (pos + 1) st"
  by (subst classNameLoop.simps) simp

lemma classNameLoop_skip:
  "pos < csize \<Longrightarrow> cstringAt src (base + pos) = Some Name \<Longrightarrow> Name \<noteq> [] \<Longrightarrow>
   Name \<in> excludedClasses args \<Longrightarrow>
     classNameLoop args src base csize pos st =
       classNameLoop args src base csize (pos + length Name + 1)
         (say args [SkippingExcluded Name] st)"
  by (subst classNameLoop.simps) simp

lemma classNameLoop_patch:
  "pos < csize \<Longrightarrow> cstringAt src (base + pos) = Some Name \<Longrightarrow> Name \<noteq> [] \<Longrightarrow>
   Name \<notin> excludedClasses args \<Longrightarrow>
     classNameLoop args src base csize pos st =
       (case patchName CLASS args (base + pos) Name st of
          None \<Rightarrow> None
        | Some st' \<Rightarrow> classNameLoop args src base csize (pos + length Name + 1) st')"
  by (subst classNameLoop.simps) simp

lemma classEntries_pos:
  "(p, Name) \<in> set (classEntries src base csize pos) \<Longrightarrow>
     pos \<le> p \<and> p < csize \<and> cstringAt src (base + p) = Some Name \<and> Name \<noteq> []"
proof (induction src base csize pos rule: classEntries.induct)
  case (1 src base csize pos)
  from "1.prems" have lt: "pos < csize"
    using classEntries_end [of pos csize src base] by fastforce
  from "1.prems" lt obtain N where N: "cstringAt src (base + pos) = Some N"
    using classEntries_fault [of pos csize src base] by fastforce
  show ?case
  proof (cases "N = []")
    case True
    with "1.prems" lt N have "(p, Name) \<in> set (classEntries src base csize (pos + 1))"
      by (simp add: classEntries_empty)
    from "1.IH"(1) [OF lt N True this] show ?thesis by simp
  next
    case False
    with "1.prems" lt N have "(p, Name) = (pos, N) \<or>
        (p, Name) \<in> set (classEntries src base csize (pos + length N + 1))"
      by (simp add: classEntries_entry)
    then show ?thesis
    proof
      assume "(p, Name) = (pos, N)"
      with lt N False show ?thesis by simp
    next
      assume "(p, Name) \<in> set (classEntries src base csize (pos + length N + 1))"
      from "1.IH"(2) [OF lt N False this] show ?thesis by simp
    qed
  qed
qed

text \<open>
  The loop never writes in front of its cursor, keeps the length of the buffer and only
  adds to the output.
\<close>

lemma classNameLoop_before:
  "classNameLoop args src base csize pos st = Some st' \<Longrightarrow>
     length (wb st') = length (wb st) \<and>
     (\<forall>j<length (wb st). j < base + pos \<longrightarrow> wb st' ! j = wb st ! j) \<and>
     set (outs st) \<subseteq> set (outs st')"
proof (induction args src base csize pos st rule: classNameLoop.induct)
  case (1 args src base csize pos st)
  show ?case
  proof (cases "pos < csize")
    case False
    with "1.prems" show ?thesis by (simp add: classNameLoop_end)
  next
    case True
    with "1.prems" obtain Name where N: "cstringAt src (base + pos) = Some Name"
      using classNameLoop_fault [of pos csize src base args st] by fastforce
    show ?thesis
    proof (cases "Name = []")
      case empty: True
      with "1.prems" True N have "classNameLoop args src base csize (pos + 1) st = Some st'"
        by (simp add: classNameLoop_empty)
      from "1.IH"(1) [OF True N empty this] show ?thesis by simp
    next
      case nonempty: False
      show ?thesis
      proof (cases "Name \<in> excludedClasses args")
        case excl: True
        with "1.prems" True N nonempty
        have r: "classNameLoop args src base csize (pos + length Name + 1)
                  (say args [SkippingExcluded Name] st) = Some st'"
          by (simp add: classNameLoop_skip)
        from "1.IH"(2) [OF True N nonempty excl r] outs_say [of st args "[SkippingExcluded Name]"]
        show ?thesis by auto
      next
        case notexcl: False
        with "1.prems" True N nonempty obtain st1 where
          p: "patchName CLASS args (base + pos) Name st = Some st1" and
          r: "classNameLoop args src base csize (pos + length Name + 1) st1 = Some st'"
          by (auto simp: classNameLoop_patch split: option.splits)
        from "1.IH"(3) [OF True N nonempty notexcl p r]
          patchName_frame [OF p] patchName_outs [OF p]
        show ?thesis by auto
      qed
    qed
  qed
qed

text \<open>
  An excluded entry that the loop reaches is skipped, and nothing that follows writes
  into it.
\<close>

lemma classNameLoop_excluded:
  "classNameLoop args src base csize pos st = Some st' \<Longrightarrow>
   (p, Name) \<in> set (classEntries src base csize pos) \<Longrightarrow>
   Name \<in> excludedClasses args \<Longrightarrow>
     (\<forall>j<length (wb st). base + p \<le> j \<and> j \<le> base + p + length Name \<longrightarrow> wb st' ! j = wb st ! j)
     \<and> (\<not> quietMode args \<longrightarrow> SkippingExcluded Name \<in> set (outs st'))"
proof (induction args src base csize pos st rule: classNameLoop.induct)
  case (1 args src base csize pos st)
  from "1.prems"(2) have True: "pos < csize"
    using classEntries_end [of pos csize src base] by fastforce
  from "1.prems"(2) True obtain N where N: "cstringAt src (base + pos) = Some N"
    using classEntries_fault [of pos csize src base] by fastforce
  show ?case
  proof (cases "N = []")
    case empty: True
    with "1.prems" True N have "classNameLoop args src base csize (pos + 1) st = Some st'"
      by (simp add: classNameLoop_empty)
    moreover from "1.prems"(2) True N empty
    have "(p, Name) \<in> set (classEntries src base csize (pos + 1))"
      by (simp add: classEntries_empty)
    ultimately show ?thesis
      using "1.IH"(1) [OF True N empty] "1.prems"(3) by blast
  next
    case nonempty: False
    from "1.prems"(2) True N nonempty
    have mem: "(p, Name) = (pos, N) \<or>
               (p, Name) \<in> set (classEntries src base csize (pos + length N + 1))"
      by (simp add: classEntries_entry)
    show ?thesis
    proof (cases "N \<in> excludedClasses args")
      case excl: True
      let ?st1 = "say args [SkippingExcluded N] st"
      from "1.prems"(1) True N nonempty excl
      have r: "classNameLoop args src base csize (pos + length N + 1) ?st1 = Some st'"
        by (simp add: classNameLoop_skip)
      from mem show ?thesis
      proof
        assume "(p, Name) = (pos, N)"
        with classNameLoop_before [OF r] show ?thesis
          by (auto simp: say_def)
      next
        assume "(p, Name) \<in> set (classEntries src base csize (pos + length N + 1))"
        from "1.IH"(2) [OF True N nonempty excl r this "1.prems"(3)]
        show ?thesis by simp
      qed
    next
      case notexcl: False
      with "1.prems"(1) True N nonempty obtain st1 where
        pn: "patchName CLASS args (base + pos) N st = Some st1" and
        r: "classNameLoop args src base csize (pos + length N + 1) st1 = Some st'"
        by (auto simp: classNameLoop_patch split: option.splits)
      from mem notexcl "1.prems"(3)
      have m: "(p, Name) \<in> set (classEntries src base csize (pos + length N + 1))"
        by auto
      from classEntries_pos [OF m] have ge: "pos + length N + 1 \<le> p" by simp
      from "1.IH"(3) [OF True N nonempty notexcl pn r m "1.prems"(3)]
        patchName_frame [OF pn] ge
      show ?thesis by auto
    qed
  qed
qed

section \<open>Properties of the category list\<close>

text \<open>
  The bytes copied, and where they go, do not depend on the contents of the destination.
\<close>

lemma memcpy_indep:
  assumes "memcpy dst off s n = Some b" and "length dst2 = length dst"
  shows "\<exists>b2. memcpy dst2 off s n = Some b2 \<and>
           (\<forall>j<length dst. (off \<le> j \<and> j < off + n \<and> b2 ! j = b ! j)
                           \<or> (b2 ! j = dst2 ! j \<and> b ! j = dst ! j))"
proof -
  from assms have n: "n \<le> length s" "off + n \<le> length dst"
    and b: "b = take off dst @ take n s @ drop (off + n) dst"
    by (auto simp: memcpy_def split: if_splits)
  let ?b2 = "take off dst2 @ take n s @ drop (off + n) dst2"
  have m: "memcpy dst2 off s n = Some ?b2"
    using n assms(2) by (simp add: memcpy_def)
  have "(off \<le> j \<and> j < off + n \<and> ?b2 ! j = b ! j) \<or> (?b2 ! j = dst2 ! j \<and> b ! j = dst ! j)"
    if "j < length dst" for j
    using that n b assms(2) by (auto simp: nth_append min_def)
  with m show ?thesis by blast
qed

lemma patchName_indep:
  assumes "patchName t args off Name st = Some st'" and "length w2 = length (wb st)"
  shows "\<exists>st2. patchName t args off Name (st\<lparr>wb := w2\<rparr>) = Some st2 \<and>
           gen st2 = gen st' \<and> outs st2 = outs st' \<and>
           (\<forall>j<length (wb st). (off \<le> j \<and> j < off + length Name \<and> wb st2 ! j = wb st' ! j)
                               \<or> (wb st2 ! j = w2 ! j \<and> wb st' ! j = wb st ! j))"
proof (cases "pattern args = []")
  case True
  obtain r g where rg: "generateRandomString (length Name) (gen st) = (r, g)"
    by (cases "generateRandomString (length Name) (gen st)")
  then have lr: "length r = length Name"
    using length_generateRandomString [of "length Name" "gen st"] by simp
  from assms(1) True rg obtain b where
    m: "memcpy (wb st) off (c_str r) (length r) = Some b" and
    st': "st' = say args [ReplacedWith r] ((say args [Found t Name off] st)\<lparr>wb := b, gen := g\<rparr>)"
    by (auto simp: patchName_def split: option.splits)
  from memcpy_indep [OF m assms(2)] obtain b2 where
    m2: "memcpy w2 off (c_str r) (length r) = Some b2" and
    f: "\<forall>j<length (wb st). (off \<le> j \<and> j < off + length r \<and> b2 ! j = b ! j)
                           \<or> (b2 ! j = w2 ! j \<and> b ! j = wb st ! j)"
    by blast
  have "patchName t args off Name (st\<lparr>wb := w2\<rparr>) =
      Some (say args [ReplacedWith r] ((say args [Found t Name off] (st\<lparr>wb := w2\<rparr>))\<lparr>wb := b2, gen := g\<rparr>))"
    using True rg m2 by (simp add: patchName_def say_def)
  with st' f lr show ?thesis by (auto simp: say_def)
next
  case False
  show ?thesis
  proof (cases "replaceLoop (pattern args) (replacement args) Name 0 False")
    case None
    with assms False show ?thesis by (simp add: patchName_def)
  next
    case (Some res)
    obtain newName replaced where res: "res = (newName, replaced)" by (cases res)
    show ?thesis
    proof (cases replaced)
      case notrep: False
      with assms False Some res have "st' = st" by (simp add: patchName_def)
      moreover have "patchName t args off Name (st\<lparr>wb := w2\<rparr>) = Some (st\<lparr>wb := w2\<rparr>)"
        using notrep False Some res by (simp add: patchName_def)
      ultimately show ?thesis by simp
    next
      case True
      let ?ms = "[Found t Name off, ReplacedWith newName]"
      from assms(1) False Some res True obtain b where
        m: "memcpy (wb st) off (c_str newName) (length Name) = Some b" and
        st': "st' = (say args ?ms st)\<lparr>wb := b\<rparr>"
        by (auto simp: patchName_def split: option.splits)
      from memcpy_indep [OF m assms(2)] obtain b2 where
        m2: "memcpy w2 off (c_str newName) (length Name) = Some b2" and
        f: "\<forall>j<length (wb st). (off \<le> j \<and> j < off + length Name \<and> b2 ! j = b ! j)
                               \<or> (b2 ! j = w2 ! j \<and> b ! j = wb st ! j)"
        by blast
      have "patchName t args off Name (st\<lparr>wb := w2\<rparr>) = Some ((say args ?ms (st\<lparr>wb := w2\<rparr>))\<lparr>wb := b2\<rparr>)"
        using False Some res True m2 by (simp add: patchName_def say_def)
      with st' f show ?thesis by (auto simp: say_def)
    qed
  qed
qed

text \<open>
  Nothing in the category-list pass looks at the exclusion set.
\<close>

lemma say_excludedClasses: "say (args\<lparr>excludedClasses := X\<rparr>) = say args"
  by (rule ext, rule ext) (simp add: say_def)

lemma patchName_excludedClasses:
  "patchName t (args\<lparr>excludedClasses := X\<rparr>) off Name st = patchName t args off Name st"
  unfolding patchName_def say_excludedClasses by simp

lemma categorySlot_excludedClasses:
  "categorySlot Obj src SliceOffset (args\<lparr>excludedClasses := X\<rparr>) base i st =
   categorySlot Obj src SliceOffset args base i st"
  unfolding categorySlot_def patchName_excludedClasses by simp

lemma categoryLoop_end:
  "\<not> i + (if is64Bit Obj then 8 else 4) \<le> csize \<Longrightarrow>
     categoryLoop Obj src SliceOffset args base csize i st = Some st"
  by (subst categoryLoop.simps) (simp add: Let_def)

lemma categoryLoop_step:
  "i + (if is64Bit Obj then 8 else 4) \<le> csize \<Longrightarrow>
     categoryLoop Obj src SliceOffset args base csize i st =
       (case categorySlot Obj src SliceOffset args base i st of
          None \<Rightarrow> None
        | Some st' \<Rightarrow>
            categoryLoop Obj src SliceOffset args base csize
              (i + (if is64Bit Obj then 8 else 4)) st')"
  by (subst categoryLoop.simps) (simp add: Let_def)

lemma categoryLoop_excludedClasses:
  "categoryLoop Obj src SliceOffset (args\<lparr>excludedClasses := X\<rparr>) base csize i st =
   categoryLoop Obj src SliceOffset args base csize i st"
proof (induction Obj src SliceOffset args base csize i st rule: categoryLoop.induct)
  case (1 Obj src SliceOffset args base csize i st)
  let ?P = "if is64Bit Obj then 8 else 4 :: nat"
  show ?case
  proof (cases "i + ?P \<le> csize")
    case False
    then show ?thesis by (simp add: categoryLoop_end)
  next
    case True
    show ?thesis
    proof (cases "categorySlot Obj src SliceOffset args base i st")
      case None
      with True show ?thesis
        by (simp add: categoryLoop_step categorySlot_excludedClasses)
    next
      case (Some st1)
      from "1.IH" [OF refl True Some]
      have "categoryLoop Obj src SliceOffset (args\<lparr>excludedClasses := X\<rparr>) base csize (i + ?P) st1
          = categoryLoop Obj src SliceOffset args base csize (i + ?P) st1" .
      with True Some show ?thesis
        by (simp add: categoryLoop_step categorySlot_excludedClasses)
    qed
  qed
qed

lemma loadPointer_cong:
  assumes "length xs = length ys"
      and "\<forall>j<length ys. C \<le> j \<and> j < C + P \<longrightarrow> xs ! j = ys ! j"
  shows "loadPointer xs C P = loadPointer ys C P"
proof (cases "C + P \<le> length ys")
  case False
  with assms(1) show ?thesis by (simp add: loadPointer_def)
next
  case True
  have "take P (drop C xs) = take P (drop C ys)"
  proof (rule nth_equalityI)
    show "length (take P (drop C xs)) = length (take P (drop C ys))"
      using assms(1) by simp
    fix k
    assume "k < length (take P (drop C xs))"
    then have k: "k < P" "C + k < length ys" using assms(1) True by auto
    with assms show "take P (drop C xs) ! k = take P (drop C ys) ! k" by simp
  qed
  with assms(1) show ?thesis by (simp add: loadPointer_def)
qed

text \<open>
  The loop body is the search for the name followed by the patch block, and the pass over
  the category list is the patch block applied to the names of all its slots, in order.
\<close>

lemma categorySlot_categoryName:
  "categorySlot Obj src SliceOffset args base i st =
     (case categoryName Obj src SliceOffset (base + i) of
        None \<Rightarrow> None
      | Some None \<Rightarrow> Some st
      | Some (Some (off, Name)) \<Rightarrow> patchName CATEGORY args off Name st)"
  by (simp add: categorySlot_def categoryName_def Let_def split: option.splits)

lemma categoryLoop_end_P:
  assumes "P = (if is64Bit Obj then 8 else 4)" and "\<not> i + P \<le> csize"
  shows "categoryLoop Obj src SliceOffset args base csize i st = Some st"
  using assms(2) unfolding assms(1) by (rule categoryLoop_end)

lemma categoryLoop_step_P:
  assumes "P = (if is64Bit Obj then 8 else 4)" and "i + P \<le> csize"
  shows "categoryLoop Obj src SliceOffset args base csize i st =
       (case categorySlot Obj src SliceOffset args base i st of
          None \<Rightarrow> None
        | Some st' \<Rightarrow> categoryLoop Obj src SliceOffset args base csize (i + P) st')"
  using assms(2) unfolding assms(1) by (rule categoryLoop_step)

lemma categoryLoop_names:
  fixes P :: nat
  assumes P: "P = (if is64Bit Obj then 8 else 4)"
  shows "categoryLoop Obj src SliceOffset args base csize (k * P) st =
     (case categoryNamesAt Obj src SliceOffset (map (\<lambda>k. base + k * P) [k ..< csize div P]) of
        None \<Rightarrow> None
      | Some es \<Rightarrow> patchAll CATEGORY args es st)"
proof (induction "csize div P - k" arbitrary: k st)
  case 0
  have P0: "0 < P" using P by simp
  from 0 have le: "csize div P \<le> k" by simp
  then have "csize div P < Suc k" by simp
  then have "csize < Suc k * P" using P0 by (simp add: div_less_iff_less_mult)
  then have "\<not> k * P + P \<le> csize" by simp
  then have loop: "categoryLoop Obj src SliceOffset args base csize (k * P) st = Some st"
    by (rule categoryLoop_end_P [OF P])
  from le have e: "[k ..< csize div P] = []" by simp
  show ?case unfolding e loop by simp
next
  case (Suc n)
  have P0: "0 < P" using P by simp
  from Suc(2) have lt: "k < csize div P" by simp
  then have "Suc k \<le> csize div P" by simp
  then have "Suc k * P \<le> csize" using P0 by (simp add: less_eq_div_iff_mult_less_eq)
  then have le: "k * P + P \<le> csize" by simp
  have step: "categoryLoop Obj src SliceOffset args base csize (k * P) st =
       (case categorySlot Obj src SliceOffset args base (k * P) st of
          None \<Rightarrow> None
        | Some st' \<Rightarrow> categoryLoop Obj src SliceOffset args base csize (Suc k * P) st')"
  proof -
    have eq: "k * P + P = Suc k * P" by simp
    from categoryLoop_step_P [OF P le, of src SliceOffset args base st]
    show ?thesis unfolding eq .
  qed
  from Suc(2) have n: "n = csize div P - Suc k" by simp
  note IH = Suc(1) [OF n]
  have l: "[k ..< csize div P] = k # [Suc k ..< csize div P]"
    using lt by (simp add: upt_conv_Cons)
  show ?case
  proof (cases "categoryName Obj src SliceOffset (base + k * P)")
    case None
    then show ?thesis
      by (simp add: step l categorySlot_categoryName del: mult_Suc)
  next
    case (Some r)
    show ?thesis
    proof (cases r)
      case None
      with Some show ?thesis
        by (simp add: step l categorySlot_categoryName IH del: mult_Suc split: option.splits)
    next
      case (Some e)
      obtain off Name where e: "e = (off, Name)" by (cases e)
      from \<open>categoryName Obj src SliceOffset (base + k * P) = Some r\<close> Some e
      show ?thesis
        by (simp add: step l categorySlot_categoryName IH del: mult_Suc split: option.splits)
    qed
  qed
qed

lemma patchCategoryListSection_names:
  "patchCategoryListSection Section Obj src SliceOffset args st =
     (case sec_contents Section of
        Inl E \<Rightarrow> Some st
      | Inr csize \<Rightarrow>
          if csize + (if is64Bit Obj then 8 else 4) < 2 ^ 32 then
            (case categoryNames Obj src SliceOffset (SliceOffset + sec_offset Section) csize of
               None \<Rightarrow> None
             | Some es \<Rightarrow> patchAll CATEGORY args es st)
          else None)"
proof -
  define P :: nat where "P = (if is64Bit Obj then 8 else 4)"
  have "categoryLoop Obj src SliceOffset args base csize 0 st =
     (case categoryNames Obj src SliceOffset base csize of
        None \<Rightarrow> None
      | Some es \<Rightarrow> patchAll CATEGORY args es st)" for base csize
    using categoryLoop_names [OF P_def, of src SliceOffset args base csize 0 st]
    by (simp add: categoryNames_def Let_def P_def)
  then show ?thesis
    by (simp add: patchCategoryListSection_def Let_def split: sum.splits)
qed

lemma patchAll_append:
  "patchAll t args (es1 @ es2) st =
     (case patchAll t args es1 st of None \<Rightarrow> None | Some st1 \<Rightarrow> patchAll t args es2 st1)"
proof (induction es1 arbitrary: st)
  case Nil
  show ?case by simp
next
  case (Cons e es1)
  obtain off Name where e: "e = (off, Name)" by (cases e)
  show ?case unfolding e by (simp add: Cons.IH split: option.splits)
qed

lemma patchAll_frame:
  "patchAll t args es st = Some st' \<Longrightarrow>
     length (wb st') = length (wb st) \<and>
     (\<forall>j<length (wb st).
        (\<forall>(off, Name) \<in> set es. j < off \<or> off + length Name \<le> j) \<longrightarrow> wb st' ! j = wb st ! j)"
proof (induction es arbitrary: st)
  case Nil
  then show ?case by simp
next
  case (Cons e es)
  obtain off Name where e: "e = (off, Name)" by (cases e)
  from Cons.prems obtain st1 where
    p: "patchName t args off Name st = Some st1" and r: "patchAll t args es st1 = Some st'"
    unfolding e by (auto split: option.splits)
  from Cons.IH [OF r] patchName_frame [OF p] show ?case
    unfolding e by auto
qed

lemma patchAll_indep:
  "patchAll t args es st = Some st' \<Longrightarrow> length w2 = length (wb st) \<Longrightarrow>
     \<exists>st2. patchAll t args es (st\<lparr>wb := w2\<rparr>) = Some st2 \<and>
           gen st2 = gen st' \<and> outs st2 = outs st' \<and>
           (\<forall>j<length (wb st). wb st2 ! j = wb st' ! j
                               \<or> (wb st2 ! j = w2 ! j \<and> wb st' ! j = wb st ! j))"
proof (induction es arbitrary: st w2)
  case Nil
  then show ?case by simp
next
  case (Cons e es)
  obtain off Name where e: "e = (off, Name)" by (cases e)
  from Cons.prems(1) obtain st1 where
    p: "patchName t args off Name st = Some st1" and r: "patchAll t args es st1 = Some st'"
    unfolding e by (auto split: option.splits)
  from patchName_indep [OF p Cons.prems(2)] obtain s2 where
    p2: "patchName t args off Name (st\<lparr>wb := w2\<rparr>) = Some s2" and
    g: "gen s2 = gen st1" "outs s2 = outs st1" and
    f: "\<forall>j<length (wb st). (off \<le> j \<and> j < off + length Name \<and> wb s2 ! j = wb st1 ! j)
                               \<or> (wb s2 ! j = w2 ! j \<and> wb st1 ! j = wb st ! j)"
    by blast
  have l1: "length (wb st1) = length (wb st)" using patchName_frame(1) [OF p] .
  have l2: "length (wb s2) = length w2" using patchName_frame(1) [OF p2] by simp
  have s2: "s2 = st1\<lparr>wb := wb s2\<rparr>" using g by simp
  have "length (wb s2) = length (wb st1)" using l1 l2 Cons.prems(2) by simp
  from Cons.IH [OF r this] obtain st2 where
    r2: "patchAll t args es (st1\<lparr>wb := wb s2\<rparr>) = Some st2" and
    g2: "gen st2 = gen st'" "outs st2 = outs st'" and
    f2: "\<forall>j<length (wb st1). wb st2 ! j = wb st' ! j
                               \<or> (wb st2 ! j = wb s2 ! j \<and> wb st' ! j = wb st1 ! j)"
    by blast
  from r2 s2 have r2': "patchAll t args es s2 = Some st2" by simp
  have "patchAll t args (e # es) (st\<lparr>wb := w2\<rparr>) = Some st2"
    unfolding e using p2 r2' by simp
  moreover have "\<forall>j<length (wb st). wb st2 ! j = wb st' ! j
                               \<or> (wb st2 ! j = w2 ! j \<and> wb st' ! j = wb st ! j)"
    using f f2 l1 by metis
  ultimately show ?case using g2 by blast
qed

lemma categoryNamesAt_set:
  "categoryNamesAt Obj src SliceOffset slots = Some es \<Longrightarrow>
     set es = {e. \<exists>slot \<in> set slots. categoryName Obj src SliceOffset slot = Some (Some e)}"
proof (induction slots arbitrary: es)
  case Nil
  then show ?case by simp
next
  case (Cons slot slots)
  from Cons.prems obtain r es' where
    r: "categoryName Obj src SliceOffset slot = Some r" and
    es': "categoryNamesAt Obj src SliceOffset slots = Some es'" and
    es: "es = (case r of None \<Rightarrow> es' | Some e \<Rightarrow> e # es')"
    by (auto split: option.splits)
  from Cons.IH [OF es'] r es show ?case
    by (cases r) auto
qed


lemma categoryNames_set:
  assumes "PtrSize = (if is64Bit Obj then 8 else 4)"
      and "categoryNames Obj src SliceOffset base csize = Some es"
  shows "set es = {e. \<exists>k<csize div PtrSize.
                    categoryName Obj src SliceOffset (base + k * PtrSize) = Some (Some e)}"
proof -
  from assms have "categoryNamesAt Obj src SliceOffset
      (map (\<lambda>k. base + k * PtrSize) [0 ..< csize div PtrSize]) = Some es"
    by (simp add: categoryNames_def Let_def)
  from categoryNamesAt_set [OF this] show ?thesis by auto
qed

text \<open>
  The patch block only adds to the output, and it prints the name it was given whenever it
  writes: always in randomization mode, and in replace mode when the pattern occurs.
\<close>

lemma patchAll_outs:
  "patchAll t args es st = Some st' \<Longrightarrow> set (outs st) \<subseteq> set (outs st')"
proof (induction es arbitrary: st)
  case Nil
  then show ?case by simp
next
  case (Cons e es)
  obtain off Name where e: "e = (off, Name)" by (cases e)
  from Cons.prems obtain st1 where
    p: "patchName t args off Name st = Some st1" and r: "patchAll t args es st1 = Some st'"
    unfolding e by (auto split: option.splits)
  from Cons.IH [OF r] patchName_outs [OF p] show ?case by blast
qed

lemma patchName_found:
  assumes "patchName t args off Name st = Some st'" and "\<not> quietMode args"
      and "pattern args = [] \<or>
           length (replacement args) = length (pattern args) \<and> sublist (pattern args) Name"
  shows "Found t Name off \<in> set (outs st')"
proof (cases "pattern args = []")
  case True
  obtain r g where rg: "generateRandomString (length Name) (gen st) = (r, g)"
    by (cases "generateRandomString (length Name) (gen st)")
  with assms(1,2) True show ?thesis
    by (auto simp: patchName_random [OF True] say_def split: if_splits)
next
  case False
  with assms(3) have eq: "length (replacement args) = length (pattern args)"
    and sub: "sublist (pattern args) Name" by auto
  from assms(1,2) sub show ?thesis
    by (auto simp: patchName_replace [OF False eq] say_def split: if_splits)
qed

section \<open>Properties of the program\<close>

text \<open>
  The section loop over a concatenation, and the program's dispatch on the results of the
  loads.
\<close>

lemma sectionLoop_append:
  "sectionLoop Obj src SliceOffset args (xs @ ys) st =
     (case sectionLoop Obj src SliceOffset args xs st of
        None \<Rightarrow> None
      | Some (Some E, st') \<Rightarrow> Some (Some E, st')
      | Some (None, st') \<Rightarrow> sectionLoop Obj src SliceOffset args ys st')"
proof (induction xs arbitrary: st)
  case Nil
  then show ?case by simp
next
  case (Cons x xs)
  show ?case
  proof (cases "sec_name x")
    case (Inl E)
    then show ?thesis by simp
  next
    case (Inr n)
    then show ?thesis
      by (simp add: Cons.IH split: option.splits)
  qed
qed

lemma sectionLoop_unreadable:
  assumes "sec_name S = Inr n" and "sec_contents S = Inl E"
  shows "sectionLoop Obj src SliceOffset args (S # rest) st =
         sectionLoop Obj src SliceOffset args rest st"
  using assms by (simp add: patchClassNameSection_def patchCategoryListSection_def)

lemma writes_of_append [simp]: "writes_of (xs @ ys) = writes_of xs @ writes_of ys"
  by (induction xs rule: writes_of.induct) simp_all

lemma main_Some:
  assumes "parseCommandLine (cli w) = Some args"
  shows "main w =
    (case createBinary w of
       Inl E \<Rightarrow> Some \<lparr>exit_code = 1, file_ops = [CreateBinary (binaryPath args)], stdout = [],
                      stderr = [ErrorOpeningBinary E]\<rparr>
     | Inr Bin \<Rightarrow>
        (case getFile w of
           Inl EC \<Rightarrow> Some \<lparr>exit_code = 1,
                 file_ops = [CreateBinary (binaryPath args), GetFile (binaryPath args)],
                 stdout = [], stderr = [ErrorReadingFile EC]\<rparr>
         | Inr src \<Rightarrow>
            (case patchBinary Bin src args \<lparr>wb = src, gen = seeded w, outs = []\<rparr> of
               None \<Rightarrow> None
             | Some (Inl (st, errs)) \<Rightarrow> Some \<lparr>exit_code = 1,
                 file_ops = [CreateBinary (binaryPath args), GetFile (binaryPath args)],
                 stdout = outs st, stderr = errs\<rparr>
             | Some (Inr x) \<Rightarrow> Some (persist w args
                 [CreateBinary (binaryPath args), GetFile (binaryPath args)] x))))"
  unfolding main_def Let_def using assms by simp

lemma persist_facts:
  "exit_code (persist w args ops (st, errs)) = (if dryRun args \<or> openForWriting w = None then 0 else 1)"
  "writes_of (file_ops (persist w args ops (st, errs))) =
     writes_of ops @ (if \<not> dryRun args \<and> openForWriting w = None then [wb st] else [])"
  "set errs \<subseteq> set (stderr (persist w args ops (st, errs)))"
  by (auto simp: persist_def say_def split: option.splits)

lemma universalLoop_append:
  "universalLoop src args (xs @ ys) s =
     (case universalLoop src args xs s of
        None \<Rightarrow> None
      | Some s' \<Rightarrow> universalLoop src args ys s')"
proof (induction xs arbitrary: s)
  case Nil
  then show ?case by (cases s) simp
next
  case (Cons x xs)
  obtain Offset MachOObjOrErr where x: "x = (Offset, MachOObjOrErr)" by (cases x)
  obtain st errs where s: "s = (st, errs)" by (cases s)
  show ?case
    unfolding x s
    by (simp add: Cons.IH split: sum.splits option.splits prod.splits)
qed

lemma universalLoop_errs:
  "universalLoop src args xs (st, errs) = Some (st', errs') \<Longrightarrow> set errs \<subseteq> set errs'"
proof (induction xs arbitrary: st errs)
  case Nil
  then show ?case by simp
next
  case (Cons x xs)
  obtain Offset MachOObjOrErr where x: "x = (Offset, MachOObjOrErr)" by (cases x)
  from Cons.prems show ?case
    unfolding x
    by (auto split: sum.splits option.splits prod.splits dest!: Cons.IH)
qed

section \<open>The claims\<close>

subsection \<open>C1\<close>

text \<open>
  Claim C1. For a configuration that the command-line parser accepted, a name read as a
  NUL-terminated string at \<open>off\<close> of the source image, and a working buffer of the
  image's length, patching the name in either mode returns; it leaves the working
  buffer's length as it was and either leaves the buffer alone or puts a new string of the
  name's length in the name's place; every byte before \<open>off\<close> and every byte from the
  position of the original terminator on is unchanged.
\<close>

theorem patch_keeps_length:
  assumes "parseCommandLine opts = Some args"
      and "cstringAt src off = Some Name"
      and "length (wb st) = length src"
  shows "\<exists>st'. patchName t args off Name st = Some st'
    \<and> length (wb st') = length (wb st)
    \<and> (wb st' = wb st \<or>
        (\<exists>new. length new = length Name
           \<and> wb st' = take off (wb st) @ new @ drop (off + length Name) (wb st)))
    \<and> off + length Name < length src \<and> src ! (off + length Name) = NUL
    \<and> (\<forall>j<length (wb st). j < off \<or> off + length Name \<le> j \<longrightarrow> wb st' ! j = wb st ! j)"
proof -
  note eq = parseCommandLine_Some(1) [OF assms(1)]
  note nul = cstringAt_Some(1,2) [OF assms(2)]
  have fits: "off + length Name \<le> length (wb st)"
    using nul(1) assms(3) by simp
  obtain r g where rg: "generateRandomString (length Name) (gen st) = (r, g)"
    by (cases "generateRandomString (length Name) (gen st)")
  then have lr: "length r = length Name"
    using length_generateRandomString [of "length Name" "gen st"] by simp
  have "\<exists>st'. patchName t args off Name st = Some st' \<and>
      (wb st' = wb st \<or>
        (\<exists>new. length new = length Name
           \<and> wb st' = take off (wb st) @ new @ drop (off + length Name) (wb st)))"
  proof (cases "pattern args = []")
    case True
    with rg lr fits show ?thesis
      by (auto simp: patchName_random [OF True] say_def)
  next
    case False
    with fits show ?thesis
      using length_replaceAllSpec [OF eq, of Name]
      by (auto simp: patchName_replace [OF False eq] say_def)
  qed
  then obtain st' where p: "patchName t args off Name st = Some st'"
    and w: "wb st' = wb st \<or>
        (\<exists>new. length new = length Name
           \<and> wb st' = take off (wb st) @ new @ drop (off + length Name) (wb st))"
    by blast
  from p w patchName_frame [OF p] nul show ?thesis by blast
qed

text \<open>
  The statement at work on \<open>FooBarFoo\<close>: in replace mode with pattern \<open>Foo\<close> and
  replacement \<open>Bar\<close>, and in randomization mode with a generator that draws 0, 1, 2, ...
\<close>

theorem patch_keeps_length_witness:
  "parseCommandLine example_options = Some example_args
   \<and> cstringAt (''FooBarFoo'' @ [NUL]) 0 = Some ''FooBarFoo''
   \<and> length (wb (example_state (''FooBarFoo'' @ [NUL]))) = length (''FooBarFoo'' @ [NUL])
   \<and> patchName CATEGORY example_args 0 ''FooBarFoo'' (example_state (''FooBarFoo'' @ [NUL]))
       = Some \<lparr>wb = ''BarBarBar'' @ [NUL], gen = Rng id 0,
               outs = [Found CATEGORY ''FooBarFoo'' 0, ReplacedWith ''BarBarBar'']\<rparr>
   \<and> length (''BarBarBar'' @ [NUL]) = length (''FooBarFoo'' @ [NUL])
   \<and> (''BarBarBar'' @ [NUL]) ! 9 = (''FooBarFoo'' @ [NUL]) ! 9
   \<and> parseCommandLine (example_options\<lparr>opt_replace := []\<rparr>)
       = Some (example_args\<lparr>pattern := [], replacement := []\<rparr>)
   \<and> patchName CLASS (example_args\<lparr>pattern := [], replacement := []\<rparr>) 0 ''FooBarFoo''
        (example_state (''FooBarFoo'' @ [NUL]))
       = Some \<lparr>wb = ''abcdefghi'' @ [NUL], gen = Rng id 9,
               outs = [Found CLASS ''FooBarFoo'' 0, ReplacedWith ''abcdefghi'']\<rparr>
   \<and> length (''abcdefghi'' @ [NUL]) = length (''FooBarFoo'' @ [NUL])"
proof -
  note ex = example_options_def example_args_def example_state_def
  have h1: "parseCommandLine example_options = Some example_args"
    by (simp add: parseCommandLine_def ex)
  have h2: "cstringAt (''FooBarFoo'' @ [NUL]) 0 = Some ''FooBarFoo''"
    by (simp add: cstringAt_def)
  have h3: "length (wb (example_state (''FooBarFoo'' @ [NUL]))) = length (''FooBarFoo'' @ [NUL])"
    by (simp add: example_state_def)
  have p1: "patchName CATEGORY example_args 0 ''FooBarFoo'' (example_state (''FooBarFoo'' @ [NUL]))
       = Some \<lparr>wb = ''BarBarBar'' @ [NUL], gen = Rng id 0,
               outs = [Found CATEGORY ''FooBarFoo'' 0, ReplacedWith ''BarBarBar'']\<rparr>"
    by (simp add: patchName_def ex replaceLoop.simps str_find_def str_replace_def say_def
        memcpy_def c_str_def)
  have r1: "parseCommandLine (example_options\<lparr>opt_replace := []\<rparr>)
       = Some (example_args\<lparr>pattern := [], replacement := []\<rparr>)"
    by (simp add: parseCommandLine_def ex)
  have p2: "patchName CLASS (example_args\<lparr>pattern := [], replacement := []\<rparr>) 0 ''FooBarFoo''
        (example_state (''FooBarFoo'' @ [NUL]))
       = Some \<lparr>wb = ''abcdefghi'' @ [NUL], gen = Rng id 9,
               outs = [Found CLASS ''FooBarFoo'' 0, ReplacedWith ''abcdefghi'']\<rparr>"
    by (simp add: patchName_def ex say_def memcpy_def c_str_def charset_def)
  from patch_keeps_length [OF h1 h2 h3, of CATEGORY]
  have a: "length (''BarBarBar'' @ [NUL]) = length (wb (example_state (''FooBarFoo'' @ [NUL])))"
    unfolding p1 by simp
  from patch_keeps_length [OF r1 h2 h3, of CLASS]
  have b: "length (''abcdefghi'' @ [NUL]) = length (wb (example_state (''FooBarFoo'' @ [NUL])))"
    unfolding p2 by simp
  from a b h1 h2 h3 p1 r1 p2 show ?thesis
    by (simp add: example_state_def)
qed

subsection \<open>C2\<close>

text \<open>
  Claim C2, amended. For every slot of the category list, the slot's pointer, the first
  pointer-sized field of the category record and the NUL-terminated name are read from the
  original image \<open>src\<close>: the names that the pass patches are the names found in the
  original image for the slots \<open>k < csize div PtrSize\<close>, and started on any other working
  buffer of the same length the pass prints the same lines, leaves the generator in the same
  state and writes the same bytes at the same places. The pass keeps the length of the
  working buffer and writes inside the bytes of the resolved names only. The pointer field
  of a category record is byte-identical after the pass when it overlaps none of the
  resolved names. The claim as worded promises this for every record.
\<close>

theorem category_pass_reads_source:
  assumes "patchCategoryListSection Section Obj src SliceOffset args st = Some st'"
      and "sec_contents Section = Inr csize"
      and "PtrSize = (if is64Bit Obj then 8 else 4)"
      and "length w2 = length (wb st)"
  shows "\<exists>es. categoryNames Obj src SliceOffset (SliceOffset + sec_offset Section) csize = Some es
     \<and> set es = {e. \<exists>k<csize div PtrSize.
           categoryName Obj src SliceOffset (SliceOffset + sec_offset Section + k * PtrSize)
             = Some (Some e)}
     \<and> patchAll CATEGORY args es st = Some st'
     \<and> (\<exists>st2. patchCategoryListSection Section Obj src SliceOffset args (st\<lparr>wb := w2\<rparr>) = Some st2
           \<and> gen st2 = gen st' \<and> outs st2 = outs st'
           \<and> (\<forall>j<length (wb st). wb st2 ! j = wb st' ! j
                                  \<or> (wb st2 ! j = w2 ! j \<and> wb st' ! j = wb st ! j)))
     \<and> length (wb st') = length (wb st)
     \<and> (\<forall>j<length (wb st).
           (\<forall>(off, Name) \<in> set es. j < off \<or> off + length Name \<le> j)
           \<longrightarrow> wb st' ! j = wb st ! j)
     \<and> (\<forall>k category_va category_offset.
           k < csize div PtrSize \<and>
           loadPointer src (SliceOffset + sec_offset Section + k * PtrSize) PtrSize
             = Some category_va \<and>
           virtualAddressToFileOffset Obj category_va = Some category_offset \<and>
           (\<forall>(off, Name) \<in> set es.
              off + length Name \<le> SliceOffset + unat category_offset \<or>
              SliceOffset + unat category_offset + PtrSize \<le> off)
           \<longrightarrow> (\<forall>j<length (wb st).
                  SliceOffset + unat category_offset \<le> j \<and>
                  j < SliceOffset + unat category_offset + PtrSize
                  \<longrightarrow> wb st' ! j = wb st ! j)
               \<and> loadPointer (wb st') (SliceOffset + unat category_offset) PtrSize
                   = loadPointer (wb st) (SliceOffset + unat category_offset) PtrSize)"
proof -
  let ?base = "SliceOffset + sec_offset Section"
  note names = patchCategoryListSection_names [of Section Obj src SliceOffset args]
  from assms(1,2) names [of st]
  have small: "csize + (if is64Bit Obj then 8 else 4) < 2 ^ 32"
    by (simp split: if_splits)
  with assms(1,2) names [of st]
  obtain es where es: "categoryNames Obj src SliceOffset ?base csize = Some es"
    and pa: "patchAll CATEGORY args es st = Some st'"
    by (cases "categoryNames Obj src SliceOffset ?base csize") simp_all
  from patchAll_indep [OF pa assms(4)] obtain st2 where
    p2: "patchAll CATEGORY args es (st\<lparr>wb := w2\<rparr>) = Some st2" and
    g2: "gen st2 = gen st'" "outs st2 = outs st'" and
    f2: "\<forall>j<length (wb st). wb st2 ! j = wb st' ! j
                            \<or> (wb st2 ! j = w2 ! j \<and> wb st' ! j = wb st ! j)"
    by blast
  have pass2: "patchCategoryListSection Section Obj src SliceOffset args (st\<lparr>wb := w2\<rparr>) = Some st2"
    using names [of "st\<lparr>wb := w2\<rparr>"] assms(2) small es p2 by simp
  from patchAll_frame [OF pa]
  have len: "length (wb st') = length (wb st)"
    and frame: "\<forall>j<length (wb st).
           (\<forall>(off, Name) \<in> set es. j < off \<or> off + length Name \<le> j)
           \<longrightarrow> wb st' ! j = wb st ! j"
    by simp_all
  have field: "(\<forall>j<length (wb st). C \<le> j \<and> j < C + PtrSize \<longrightarrow> wb st' ! j = wb st ! j)
      \<and> loadPointer (wb st') C PtrSize = loadPointer (wb st) C PtrSize"
    if d: "\<forall>(off, Name) \<in> set es. off + length Name \<le> C \<or> C + PtrSize \<le> off" for C
  proof -
    have bytes: "\<forall>j<length (wb st). C \<le> j \<and> j < C + PtrSize \<longrightarrow> wb st' ! j = wb st ! j"
    proof (intro allI impI)
      fix j
      assume j: "j < length (wb st)" and r: "C \<le> j \<and> j < C + PtrSize"
      have "\<forall>(off, Name) \<in> set es. j < off \<or> off + length Name \<le> j"
        using d r by fastforce
      with frame j show "wb st' ! j = wb st ! j" by blast
    qed
    with loadPointer_cong [OF len, of C PtrSize] show ?thesis by blast
  qed
  from categoryNames_set [OF assms(3) es] es pa pass2 g2 f2 len frame field
  show ?thesis by blast
qed

text \<open>
  The pass on the slice with two categories, on the image itself and on an unrelated
  buffer: the same name is found and patched, and the pointer field of the first record is
  as it was.
\<close>

theorem category_pass_reads_source_witness:
  "patchCategoryListSection chain_section chain_object chain_image 0 example_args
      (example_state chain_image)
     = Some \<lparr>wb = [CHR 0x10, CHR 0x10, NUL, NUL, CHR 0x14, CHR 0x10, NUL, NUL] @ ''Bar'' @ [NUL]
                @ ''Zoo'' @ [NUL] @ [CHR 0x08, CHR 0x10, NUL, NUL, CHR 0x0C, CHR 0x10, NUL, NUL],
             gen = Rng id 0, outs = [Found CATEGORY ''Foo'' 8, ReplacedWith ''Bar'']\<rparr>
   \<and> sec_contents chain_section = Inr 8
   \<and> (4 :: nat) = (if is64Bit chain_object then 8 else 4)
   \<and> length ''0123456789abcdefghijklmn'' = length (wb (example_state chain_image))
   \<and> categoryNames chain_object chain_image 0 0 8 = Some [(8, ''Foo''), (12, ''Zoo'')]
   \<and> patchCategoryListSection chain_section chain_object chain_image 0 example_args
        ((example_state chain_image)\<lparr>wb := ''0123456789abcdefghijklmn''\<rparr>)
     = Some \<lparr>wb = ''01234567Barbcdefghijklmn'', gen = Rng id 0,
             outs = [Found CATEGORY ''Foo'' 8, ReplacedWith ''Bar'']\<rparr>
   \<and> loadPointer chain_image 0 4 = Some 0x1010
   \<and> virtualAddressToFileOffset chain_object 0x1010 = Some 16
   \<and> loadPointer chain_image 16 4 = Some 0x1008
   \<and> loadPointer ([CHR 0x10, CHR 0x10, NUL, NUL, CHR 0x14, CHR 0x10, NUL, NUL] @ ''Bar'' @ [NUL]
                @ ''Zoo'' @ [NUL] @ [CHR 0x08, CHR 0x10, NUL, NUL, CHR 0x0C, CHR 0x10, NUL, NUL])
        16 4 = Some 0x1008"
proof -
  note ex = example_args_def example_state_def chain_image_def chain_section_def chain_object_def
  let ?after = "[CHR 0x10, CHR 0x10, NUL, NUL, CHR 0x14, CHR 0x10, NUL, NUL] @ ''Bar'' @ [NUL]
                @ ''Zoo'' @ [NUL] @ [CHR 0x08, CHR 0x10, NUL, NUL, CHR 0x0C, CHR 0x10, NUL, NUL]"
  let ?st' = "\<lparr>wb = ?after, gen = Rng id 0, outs = [Found CATEGORY ''Foo'' 8, ReplacedWith ''Bar'']\<rparr>"
  have h1: "patchCategoryListSection chain_section chain_object chain_image 0 example_args
      (example_state chain_image) = Some ?st'"
    by (simp add: eval_defs ex)
  have h2: "sec_contents chain_section = Inr 8"
    by (simp add: chain_section_def)
  have h3: "(4 :: nat) = (if is64Bit chain_object then 8 else 4)"
    by (simp add: chain_object_def)
  have h4: "length ''0123456789abcdefghijklmn'' = length (wb (example_state chain_image))"
    by (simp add: ex)
  have n: "categoryNames chain_object chain_image 0 0 8 = Some [(8, ''Foo''), (12, ''Zoo'')]"
    by (simp add: categoryNames_def categoryName_def eval_defs ex upt_rec)
  have p2: "patchCategoryListSection chain_section chain_object chain_image 0 example_args
        ((example_state chain_image)\<lparr>wb := ''0123456789abcdefghijklmn''\<rparr>)
     = Some \<lparr>wb = ''01234567Barbcdefghijklmn'', gen = Rng id 0,
             outs = [Found CATEGORY ''Foo'' 8, ReplacedWith ''Bar'']\<rparr>"
    by (simp add: eval_defs ex)
  have s: "loadPointer chain_image 0 4 = Some 0x1010"
    by (simp add: eval_defs ex)
  have v: "virtualAddressToFileOffset chain_object 0x1010 = Some 16"
    by (simp add: eval_defs ex)
  have f: "loadPointer chain_image 16 4 = Some 0x1008"
    by (simp add: eval_defs ex)
  from category_pass_reads_source [OF h1 h2 h3 h4] obtain es where
    e1: "categoryNames chain_object chain_image 0 (0 + sec_offset chain_section) 8 = Some es" and
    e2: "\<forall>k category_va category_offset.
           k < 8 div 4 \<and>
           loadPointer chain_image (0 + sec_offset chain_section + k * 4) 4 = Some category_va \<and>
           virtualAddressToFileOffset chain_object category_va = Some category_offset \<and>
           (\<forall>(off, Name) \<in> set es.
              off + length Name \<le> 0 + unat category_offset \<or>
              0 + unat category_offset + 4 \<le> off)
           \<longrightarrow> (\<forall>j<length (wb (example_state chain_image)).
                  0 + unat category_offset \<le> j \<and> j < 0 + unat category_offset + 4
                  \<longrightarrow> wb ?st' ! j = wb (example_state chain_image) ! j)
               \<and> loadPointer (wb ?st') (0 + unat category_offset) 4
                   = loadPointer (wb (example_state chain_image)) (0 + unat category_offset) 4"
    by blast
  from e1 n have es: "es = [(8, ''Foo''), (12, ''Zoo'')]"
    by (simp add: chain_section_def)
  have pre: "0 < (8 :: nat) div 4 \<and>
       loadPointer chain_image (0 + sec_offset chain_section + 0 * 4) 4 = Some 0x1010 \<and>
       virtualAddressToFileOffset chain_object 0x1010 = Some 16 \<and>
       (\<forall>(off, Name) \<in> set es.
          off + length Name \<le> 0 + unat (16 :: 64 word) \<or> 0 + unat (16 :: 64 word) + 4 \<le> off)"
    using s v by (simp add: es chain_section_def)
  from e2 [rule_format, OF pre]
  have "loadPointer ?after 16 4 = loadPointer chain_image 16 4"
    by (simp add: example_state_def)
  with h1 h2 h3 h4 n p2 s v f show ?thesis by simp
qed

text \<open>
  The claim C2 as worded fails: the record at offset 8 names its own first field, the pass
  finds the one-byte name \<open>0x08\<close> there and writes a random character over it, and the
  pointer field that held 8 holds 97 after the pass and in the file that the run writes.
\<close>

theorem category_pointer_field_overwritten:
  "loadPointer self_image 4 4 = Some 8
   \<and> virtualAddressToFileOffset example_object 8 = Some 8
   \<and> loadPointer self_image 8 4 = Some 8
   \<and> cstringAt self_image 8 = Some [CHR 0x08]
   \<and> patchCategoryListSection category_section example_object self_image 0
        (example_args\<lparr>pattern := [], replacement := []\<rparr>) (example_state self_image)
      = Some \<lparr>wb = ''Foo'' @ [NUL, CHR 0x08, NUL, NUL, NUL] @ ''a'' @ [NUL, NUL, NUL],
              gen = Rng id 1, outs = [Found CATEGORY [CHR 0x08] 8, ReplacedWith ''a'']\<rparr>
   \<and> loadPointer (''Foo'' @ [NUL, CHR 0x08, NUL, NUL, NUL] @ ''a'' @ [NUL, NUL, NUL]) 8 4 = Some 97
   \<and> main self_world =
       Some \<lparr>exit_code = 0,
             file_ops = [CreateBinary ''a.out'', GetFile ''a.out'', OpenForWriting ''a.out'',
               Write (''Foo'' @ [NUL, CHR 0x08, NUL, NUL, NUL] @ ''a'' @ [NUL, NUL, NUL])],
             stdout = [PatchingArchitecture ''i386'' 0, SkippingExcluded ''Foo'',
               Found CATEGORY [CHR 0x08] 8, ReplacedWith ''a'', SuccessfullyPatched ''a.out''],
             stderr = []\<rparr>"
  by (simp add: main_defs eval_defs example_options_def example_args_def example_state_def
      self_image_def self_world_def class_section_def category_section_def example_object_def
      example_world_def)


subsection \<open>C3\<close>

text \<open>
  Claim C3. For a non-empty pattern and a replacement of the same length, the replace loop
  returns the left-to-right scan of the specification, in which each occurrence found is
  replaced and the scan resumes after the replacement, and it reports a change exactly when
  the pattern occurs in the name. The name's bytes are written, and the two log lines
  printed, exactly in that case; otherwise the state is left as it was. With pattern
  \<open>Foo\<close> and replacement \<open>Bar\<close>, \<open>FooBarFoo\<close> becomes \<open>BarBarBar\<close>.
\<close>

theorem replace_mode_scan:
  assumes "pattern args \<noteq> []" and "length (replacement args) = length (pattern args)"
  shows "replaceLoop (pattern args) (replacement args) Name 0 False =
           Some (replaceAllSpec (pattern args) (replacement args) Name,
                 sublist (pattern args) Name)
    \<and> (patchName t args off Name st = Some st' \<longrightarrow>
         (if sublist (pattern args) Name
          then wb st' = take off (wb st) @ replaceAllSpec (pattern args) (replacement args) Name
                          @ drop (off + length Name) (wb st)
             \<and> outs st' = outs (say args [Found t Name off,
                   ReplacedWith (replaceAllSpec (pattern args) (replacement args) Name)] st)
          else st' = st))
    \<and> replaceLoop ''Foo'' ''Bar'' ''FooBarFoo'' 0 False = Some (''BarBarBar'', True)"
proof -
  have "replaceLoop ''Foo'' ''Bar'' ''FooBarFoo'' 0 False = Some (''BarBarBar'', True)"
    by (simp add: replaceLoop.simps str_find_def str_replace_def)
  moreover have "replaceLoop (pattern args) (replacement args) Name 0 False =
           Some (replaceAllSpec (pattern args) (replacement args) Name,
                 sublist (pattern args) Name)"
    using replaceLoop_spec [OF assms, of 0 Name False] by simp
  ultimately show ?thesis
    by (auto simp: patchName_replace [OF assms] say_def split: if_splits)
qed

text \<open>
  The statement at work on the example of the specification.
\<close>

theorem replace_mode_scan_witness:
  "pattern example_args \<noteq> [] \<and> length (replacement example_args) = length (pattern example_args)
   \<and> patchName CLASS example_args 0 ''FooBarFoo'' (example_state (''FooBarFoo'' @ [NUL]))
       = Some \<lparr>wb = ''BarBarBar'' @ [NUL], gen = Rng id 0,
               outs = [Found CLASS ''FooBarFoo'' 0, ReplacedWith ''BarBarBar'']\<rparr>
   \<and> replaceAllSpec ''Foo'' ''Bar'' ''FooBarFoo'' = ''BarBarBar''
   \<and> sublist ''Foo'' ''FooBarFoo''"
proof -
  have h1: "pattern example_args \<noteq> []" by (simp add: example_args_def)
  have h2: "length (replacement example_args) = length (pattern example_args)"
    by (simp add: example_args_def)
  have p: "patchName CLASS example_args 0 ''FooBarFoo'' (example_state (''FooBarFoo'' @ [NUL]))
       = Some \<lparr>wb = ''BarBarBar'' @ [NUL], gen = Rng id 0,
               outs = [Found CLASS ''FooBarFoo'' 0, ReplacedWith ''BarBarBar'']\<rparr>"
    by (simp add: patchName_def example_args_def example_state_def replaceLoop.simps
        str_find_def str_replace_def say_def memcpy_def c_str_def)
  from replace_mode_scan [OF h1 h2, of "''FooBarFoo''" CLASS 0
      "example_state (''FooBarFoo'' @ [NUL])"]
  have "replaceLoop ''Foo'' ''Bar'' ''FooBarFoo'' 0 False =
          Some (replaceAllSpec ''Foo'' ''Bar'' ''FooBarFoo'', sublist ''Foo'' ''FooBarFoo'')"
    by (simp add: example_args_def)
  then have "replaceAllSpec ''Foo'' ''Bar'' ''FooBarFoo'' = ''BarBarBar''"
    and "sublist ''Foo'' ''FooBarFoo''"
    by (simp_all add: replaceLoop.simps str_find_def str_replace_def)
  with h1 h2 p show ?thesis by simp
qed

subsection \<open>C4\<close>

text \<open>
  Claim C4, amended. When the end \<open>vmaddr + vmsize\<close> of every segment fits the width of its
  command's fields (32 bits for \<^verbatim>\<open>LC_SEGMENT\<close>, 64 bits for \<^verbatim>\<open>LC_SEGMENT_64\<close>), address
  translation walks the load commands in declaration order, treats the 32-bit and the 64-bit
  segment command alike, and answers for the first segment whose half-open range
  \<open>[vmaddr, vmaddr + vmsize)\<close> contains the address with \<open>fileoff + (VA - vmaddr)\<close> as a
  64-bit value; when no segment contains the address the answer is \<open>None\<close>, not an error.
  For the segment \<open>{vmaddr = 0x1000, vmsize = 0x200, fileoff = 0x400}\<close>, in either layout,
  \<open>0x1050\<close> maps to \<open>0x450\<close> and \<open>0x1300\<close> is unresolved.
\<close>

theorem virtualAddressToFileOffset_first_segment:
  assumes "\<forall>lc \<in> set (load_commands Obj). segment_end_fits lc"
  shows "virtualAddressToFileOffset Obj VA =
     (case List.find (\<lambda>lc. segment_contains lc VA) (load_commands Obj) of
        None \<Rightarrow> None
      | Some lc \<Rightarrow> Some (of_nat (segment_offset lc VA)))
   \<and> virtualAddressToFileOffset (Obj\<lparr>load_commands := [LC_SEGMENT_64 0x1000 0x200 0x400]\<rparr>) 0x1050
       = Some 0x450
   \<and> virtualAddressToFileOffset (Obj\<lparr>load_commands := [LC_SEGMENT_64 0x1000 0x200 0x400]\<rparr>) 0x1300
       = None
   \<and> virtualAddressToFileOffset (Obj\<lparr>load_commands := [LC_SEGMENT 0x1000 0x200 0x400]\<rparr>) 0x1050
       = Some 0x450
   \<and> virtualAddressToFileOffset (Obj\<lparr>load_commands := [LC_SEGMENT 0x1000 0x200 0x400]\<rparr>) 0x1300
       = None"
proof -
  have "segmentLoop [LC_SEGMENT_64 0x1000 0x200 0x400] 0x1050 = Some 0x450"
    and "segmentLoop [LC_SEGMENT_64 0x1000 0x200 0x400] 0x1300 = None"
    and "segmentLoop [LC_SEGMENT 0x1000 0x200 0x400] 0x1050 = Some 0x450"
    and "segmentLoop [LC_SEGMENT 0x1000 0x200 0x400] 0x1300 = None"
    by simp_all
  with segmentLoop_first [OF assms, of VA] show ?thesis
    by (simp add: virtualAddressToFileOffset_def)
qed

text \<open>
  The statement at work on a slice with three load commands whose first two segments both
  contain the address: the first one answers.
\<close>

theorem virtualAddressToFileOffset_first_segment_witness:
  "list_all segment_end_fits
      [LC_OTHER, LC_SEGMENT 0x1000 0x200 0x400, LC_SEGMENT_64 0x1000 0x1000 0x800]
   \<and> List.find (\<lambda>lc. segment_contains lc 0x1050)
        [LC_OTHER, LC_SEGMENT 0x1000 0x200 0x400, LC_SEGMENT_64 0x1000 0x1000 0x800]
       = Some (LC_SEGMENT 0x1000 0x200 0x400)
   \<and> segment_offset (LC_SEGMENT 0x1000 0x200 0x400) 0x1050 = 0x450
   \<and> virtualAddressToFileOffset (example_object\<lparr>load_commands :=
        [LC_OTHER, LC_SEGMENT 0x1000 0x200 0x400, LC_SEGMENT_64 0x1000 0x1000 0x800]\<rparr>) 0x1050
       = Some 0x450
   \<and> virtualAddressToFileOffset (example_object\<lparr>load_commands :=
        [LC_OTHER, LC_SEGMENT 0x1000 0x200 0x400, LC_SEGMENT_64 0x1000 0x1000 0x800]\<rparr>) 0x1300
       = Some 0xB00
   \<and> virtualAddressToFileOffset (example_object\<lparr>load_commands :=
        [LC_OTHER, LC_SEGMENT 0x1000 0x200 0x400, LC_SEGMENT_64 0x1000 0x1000 0x800]\<rparr>) 0x2000
       = None"
proof -
  let ?cmds = "[LC_OTHER, LC_SEGMENT 0x1000 0x200 0x400, LC_SEGMENT_64 0x1000 0x1000 0x800]"
  let ?obj = "example_object\<lparr>load_commands := ?cmds\<rparr>"
  have fits: "\<forall>lc \<in> set (load_commands ?obj). segment_end_fits lc"
    by simp
  have f1: "List.find (\<lambda>lc. segment_contains lc 0x1050) ?cmds
      = Some (LC_SEGMENT 0x1000 0x200 0x400)"
    by simp
  have f2: "List.find (\<lambda>lc. segment_contains lc 0x1300) ?cmds
      = Some (LC_SEGMENT_64 0x1000 0x1000 0x800)"
    by simp
  have f3: "List.find (\<lambda>lc. segment_contains lc 0x2000) ?cmds = None"
    by simp
  have o1: "segment_offset (LC_SEGMENT 0x1000 0x200 0x400) 0x1050 = 0x450"
    and o2: "segment_offset (LC_SEGMENT_64 0x1000 0x1000 0x800) 0x1300 = 0xB00"
    by simp_all
  from virtualAddressToFileOffset_first_segment [OF fits, of "0x1050"] f1 o1
  have a: "virtualAddressToFileOffset ?obj 0x1050 = Some 0x450" by simp
  from virtualAddressToFileOffset_first_segment [OF fits, of "0x1300"] f2 o2
  have b: "virtualAddressToFileOffset ?obj 0x1300 = Some 0xB00" by simp
  from virtualAddressToFileOffset_first_segment [OF fits, of "0x2000"] f3
  have c: "virtualAddressToFileOffset ?obj 0x2000 = None" by simp
  from f1 o1 a b c show ?thesis by simp
qed

text \<open>
  The claim C4 as worded fails for a segment whose end does not fit. The 32-bit segment
  \<open>{vmaddr = 0xffffff00, vmsize = 0x200, fileoff = 0x10}\<close> contains the address
  \<open>0xffffff80\<close>, but the program's sum \<open>vmaddr + vmsize\<close> wraps to \<open>0x100\<close> and the
  address is unresolved. In the 64-bit layout, with such a segment in front of a segment
  that contains the same address, the second one answers.
\<close>

theorem virtualAddressToFileOffset_wrapping_segment:
  "segment_contains (LC_SEGMENT 0xffffff00 0x200 0x10) 0xffffff80
   \<and> segment_offset (LC_SEGMENT 0xffffff00 0x200 0x10) 0xffffff80 = 0x90
   \<and> virtualAddressToFileOffset
        (example_object\<lparr>load_commands := [LC_SEGMENT 0xffffff00 0x200 0x10]\<rparr>) 0xffffff80 = None
   \<and> List.find (\<lambda>lc. segment_contains lc 0xffffffffffffff80)
        [LC_SEGMENT_64 0xffffffffffffff00 0x200 0x10, LC_SEGMENT_64 0xffffffffffffff00 0x90 0x20]
       = Some (LC_SEGMENT_64 0xffffffffffffff00 0x200 0x10)
   \<and> segment_offset (LC_SEGMENT_64 0xffffffffffffff00 0x200 0x10) 0xffffffffffffff80 = 0x90
   \<and> virtualAddressToFileOffset
        (example_object\<lparr>load_commands :=
          [LC_SEGMENT_64 0xffffffffffffff00 0x200 0x10, LC_SEGMENT_64 0xffffffffffffff00 0x90 0x20]\<rparr>)
        0xffffffffffffff80 = Some 0xA0"
  by (simp add: virtualAddressToFileOffset_def)

subsection \<open>C5\<close>

text \<open>
  Claim C5, amended. For every entry of the class-name table whose exact text is in the
  exclusion set, the pass over the class-name section leaves the bytes at the entry's
  location, its terminator included, as they were in the working buffer, in both modes, and
  prints the skip line when not in quiet mode. The claim as worded promises this for the
  whole run; the pass over the category list, which makes no exclusion check, does not
  keep that promise.
\<close>

theorem excluded_class_untouched_by_class_pass:
  assumes "patchClassNameSection Section Obj src SliceOffset args st = Some st'"
      and "sec_contents Section = Inr csize"
      and "(p, Name) \<in> set (classEntries src (SliceOffset + sec_offset Section) csize 0)"
      and "Name \<in> excludedClasses args"
  shows "(\<forall>j<length (wb st).
            SliceOffset + sec_offset Section + p \<le> j \<and>
            j \<le> SliceOffset + sec_offset Section + p + length Name
            \<longrightarrow> wb st' ! j = wb st ! j)
       \<and> (\<not> quietMode args \<longrightarrow> SkippingExcluded Name \<in> set (outs st'))"
proof -
  from assms(1,2)
  have "classNameLoop args src (SliceOffset + sec_offset Section) csize 0 st = Some st'"
    by (simp add: patchClassNameSection_def)
  from classNameLoop_excluded [OF this assms(3,4)] show ?thesis .
qed

text \<open>
  The class-name pass on the example image with \<open>Foo\<close> excluded.
\<close>

theorem excluded_class_untouched_by_class_pass_witness:
  "patchClassNameSection class_section example_object example_image 0 example_args
      (example_state example_image)
     = Some \<lparr>wb = example_image, gen = Rng id 0, outs = [SkippingExcluded ''Foo'']\<rparr>
   \<and> sec_contents class_section = Inr 4
   \<and> (0, ''Foo'') \<in> set (classEntries example_image (0 + sec_offset class_section) 4 0)
   \<and> ''Foo'' \<in> excludedClasses example_args
   \<and> SkippingExcluded ''Foo'' \<in> set [SkippingExcluded ''Foo'']"
proof -
  note ex = example_args_def example_state_def example_image_def class_section_def
    category_section_def example_object_def
  have h1: "patchClassNameSection class_section example_object example_image 0 example_args
      (example_state example_image)
     = Some \<lparr>wb = example_image, gen = Rng id 0, outs = [SkippingExcluded ''Foo'']\<rparr>"
    by (simp add: eval_defs ex)
  have h2: "sec_contents class_section = Inr 4"
    by (simp add: class_section_def)
  have h3: "(0, ''Foo'') \<in> set (classEntries example_image (0 + sec_offset class_section) 4 0)"
    by (simp add: classEntries.simps eval_defs ex)
  have h4: "''Foo'' \<in> excludedClasses example_args"
    by (simp add: example_args_def)
  from excluded_class_untouched_by_class_pass [OF h1 h2 h3 h4]
  have "SkippingExcluded ''Foo'' \<in> set [SkippingExcluded ''Foo'']"
    by (simp add: example_args_def)
  with h1 h2 h3 h4 show ?thesis by simp
qed

text \<open>
  The claim C5 as worded fails on the example image: \<open>Foo\<close> is excluded and is an entry of
  the class-name table, a category bears the same name string, and after the run the bytes
  of the entry read \<open>Bar\<close>.
\<close>

theorem excluded_class_overwritten_by_category_pass:
  "parseCommandLine (cli example_world) = Some example_args
   \<and> ''Foo'' \<in> excludedClasses example_args
   \<and> classEntries example_image 0 4 0 = [(0, ''Foo'')]
   \<and> getFile example_world = Inr example_image
   \<and> take 3 example_image = ''Foo''
   \<and> main example_world =
       Some \<lparr>exit_code = 0,
             file_ops = [CreateBinary ''a.out'', GetFile ''a.out'', OpenForWriting ''a.out'',
               Write (''Bar'' @ [NUL, CHR 0x08, NUL, NUL, NUL, NUL, NUL, NUL, NUL])],
             stdout = [PatchingArchitecture ''i386'' 0, SkippingExcluded ''Foo'',
               Found CATEGORY ''Foo'' 0, ReplacedWith ''Bar'', SuccessfullyPatched ''a.out''],
             stderr = []\<rparr>"
  by (simp add: main_def parseCommandLine_def patchBinary_def persist_def classEntries.simps
      eval_defs example_options_def example_args_def example_image_def class_section_def
      category_section_def example_object_def example_world_def)

subsection \<open>C6\<close>

text \<open>
  Claim C6. A replace directive whose pattern is empty or whose pattern and replacement
  differ in length is rejected by the command-line parser, and the program ends with exit
  code 1 before the binary is opened: no file access is made, nothing is printed by the
  patchers, and the file on disk is as it was.
\<close>

theorem invalid_replace_rejected:
  assumes "opt_replace (cli w) = [p, r]" and "p = [] \<or> length p \<noteq> length r"
  shows "parseCommandLine (cli w) = None
    \<and> main w = Some \<lparr>exit_code = 1, file_ops = [], stdout = [], stderr = []\<rparr>
    \<and> disk_after w \<lparr>exit_code = 1, file_ops = [], stdout = [], stderr = []\<rparr> = disk w"
  using assms by (auto simp: main_defs Let_def)

text \<open>
  The example of the specification: pattern \<open>AB\<close>, replacement \<open>C\<close>.
\<close>

theorem invalid_replace_rejected_witness:
  "opt_replace (cli rejected_world) = [''AB'', ''C'']
   \<and> length ''AB'' \<noteq> length ''C''
   \<and> main rejected_world = Some \<lparr>exit_code = 1, file_ops = [], stdout = [], stderr = []\<rparr>"
proof -
  have h1: "opt_replace (cli rejected_world) = [''AB'', ''C'']"
    by (simp add: example_options_def example_image_def class_section_def category_section_def
        example_object_def example_world_def rejected_world_def)
  have h2: "''AB'' = [] \<or> length ''AB'' \<noteq> length ''C''" by simp
  from invalid_replace_rejected [OF h1 h2] h1 show ?thesis by simp
qed

subsection \<open>C7\<close>

text \<open>
  Claim C7, amended. Within one slice, a section whose contents cannot be read is passed
  over without a log line: the slice is processed as if the section were not in its list,
  the sections after it included. A section whose name cannot be read ends the processing
  of the slice at once: the error is returned to the caller with the state reached by the
  sections before it, and the sections after it are not examined, whatever they are.
\<close>

theorem section_failures:
  "(sections Obj = before @ S # rest \<and> sec_name S = Inr n \<and> sec_contents S = Inl E \<longrightarrow>
      patchMachOSlice Obj src SliceOffset args st =
        sectionLoop Obj src SliceOffset args (before @ rest)
          (say args [PatchingArchitecture (archName Obj) SliceOffset] st))
   \<and> (sections Obj = before @ S # rest \<and> sec_name S = Inl E \<and>
       sectionLoop Obj src SliceOffset args before
         (say args [PatchingArchitecture (archName Obj) SliceOffset] st) = Some (None, st1) \<longrightarrow>
      patchMachOSlice Obj src SliceOffset args st = Some (Some E, st1))"
proof (intro conjI impI)
  let ?st0 = "say args [PatchingArchitecture (archName Obj) SliceOffset] st"
  assume a: "sections Obj = before @ S # rest \<and> sec_name S = Inr n \<and> sec_contents S = Inl E"
  then have "sec_name S = Inr n" and "sec_contents S = Inl E" by auto
  then have "sectionLoop Obj src SliceOffset args (S # rest) s
      = sectionLoop Obj src SliceOffset args rest s" for s
    by (rule sectionLoop_unreadable)
  then have "sectionLoop Obj src SliceOffset args (before @ S # rest) ?st0
      = sectionLoop Obj src SliceOffset args (before @ rest) ?st0"
    by (simp add: sectionLoop_append [of _ _ _ _ before] split: option.splits)
  with a show "patchMachOSlice Obj src SliceOffset args st =
        sectionLoop Obj src SliceOffset args (before @ rest) ?st0"
    by (simp add: patchMachOSlice_def)
next
  let ?st0 = "say args [PatchingArchitecture (archName Obj) SliceOffset] st"
  assume a: "sections Obj = before @ S # rest \<and> sec_name S = Inl E \<and>
       sectionLoop Obj src SliceOffset args before ?st0 = Some (None, st1)"
  then have "sectionLoop Obj src SliceOffset args (before @ S # rest) ?st0 = Some (Some E, st1)"
    by (simp add: sectionLoop_append [of _ _ _ _ before])
  with a show "patchMachOSlice Obj src SliceOffset args st = Some (Some E, st1)"
    by (simp add: patchMachOSlice_def)
qed

text \<open>
  Both cases on the example slice: an unreadable section in front of the category list, and
  a section of unreadable name between the category list and the class-name table.
\<close>

theorem section_failures_witness:
  "sections (example_object\<lparr>sections := [unreadable_section, category_section]\<rparr>)
     = [] @ unreadable_section # [category_section]
   \<and> sec_name unreadable_section = Inr ''__objc_classname''
   \<and> sec_contents unreadable_section = Inl (LLVMError ''bad contents'')
   \<and> patchMachOSlice (example_object\<lparr>sections := [unreadable_section, category_section]\<rparr>)
        example_image 0 example_args (example_state example_image)
      = Some (None,
         \<lparr>wb = ''Bar'' @ [NUL, CHR 0x08, NUL, NUL, NUL, NUL, NUL, NUL, NUL], gen = Rng id 0,
          outs = [PatchingArchitecture ''i386'' 0, Found CATEGORY ''Foo'' 0,
                  ReplacedWith ''Bar'']\<rparr>)
   \<and> sections (example_object\<lparr>sections := [category_section, unnamed_section, class_section]\<rparr>)
     = [category_section] @ unnamed_section # [class_section]
   \<and> sec_name unnamed_section = Inl (LLVMError ''bad name'')
   \<and> patchMachOSlice
        (example_object\<lparr>sections := [category_section, unnamed_section, class_section]\<rparr>)
        example_image 0 example_args (example_state example_image)
      = Some (Some (LLVMError ''bad name''),
         \<lparr>wb = ''Bar'' @ [NUL, CHR 0x08, NUL, NUL, NUL, NUL, NUL, NUL, NUL], gen = Rng id 0,
          outs = [PatchingArchitecture ''i386'' 0, Found CATEGORY ''Foo'' 0,
                  ReplacedWith ''Bar'']\<rparr>)"
proof -
  note ex = example_args_def example_state_def example_image_def class_section_def
    category_section_def unnamed_section_def unreadable_section_def example_object_def
  let ?o1 = "example_object\<lparr>sections := [unreadable_section, category_section]\<rparr>"
  let ?o2 = "example_object\<lparr>sections := [category_section, unnamed_section, class_section]\<rparr>"
  let ?st = "example_state example_image"
  let ?st1 = "\<lparr>wb = ''Bar'' @ [NUL, CHR 0x08, NUL, NUL, NUL, NUL, NUL, NUL, NUL], gen = Rng id 0,
          outs = [PatchingArchitecture ''i386'' 0, Found CATEGORY ''Foo'' 0,
                  ReplacedWith ''Bar'']\<rparr>"
  have a1: "sections ?o1 = [] @ unreadable_section # [category_section]" by simp
  have a2: "sec_name unreadable_section = Inr ''__objc_classname''"
    by (simp add: unreadable_section_def)
  have a3: "sec_contents unreadable_section = Inl (LLVMError ''bad contents'')"
    by (simp add: unreadable_section_def)
  have a4: "sectionLoop ?o1 example_image 0 example_args ([] @ [category_section])
      (say example_args [PatchingArchitecture (archName ?o1) 0] ?st) = Some (None, ?st1)"
    by (simp add: eval_defs ex)
  have b1: "sections ?o2 = [category_section] @ unnamed_section # [class_section]" by simp
  have b2: "sec_name unnamed_section = Inl (LLVMError ''bad name'')"
    by (simp add: unnamed_section_def)
  have b3: "sectionLoop ?o2 example_image 0 example_args [category_section]
      (say example_args [PatchingArchitecture (archName ?o2) 0] ?st) = Some (None, ?st1)"
    by (simp add: eval_defs ex)
  note t1 = section_failures [of ?o1 "[]" unreadable_section "[category_section]"
      "''__objc_classname''" "LLVMError ''bad contents''" example_image 0 example_args ?st]
  note t2 = section_failures [of ?o2 "[category_section]" unnamed_section "[class_section]"
      _ "LLVMError ''bad name''" example_image 0 example_args ?st ?st1]
  from t1 a1 a2 a3 a4
  have c1: "patchMachOSlice ?o1 example_image 0 example_args ?st = Some (None, ?st1)"
    by simp
  from t2 b1 b2 b3
  have c2: "patchMachOSlice ?o2 example_image 0 example_args ?st
      = Some (Some (LLVMError ''bad name''), ?st1)"
    by blast
  from a1 a2 a3 b1 b2 c1 c2 show ?thesis by simp
qed

text \<open>
  The claim C7 as worded fails: with a section of unreadable name in front of the category
  list the slice returns the error and the category name is left unpatched, while the same
  slice without that section patches it.
\<close>

theorem section_name_failure_aborts_slice:
  "patchMachOSlice (example_object\<lparr>sections := [unnamed_section, category_section]\<rparr>)
      example_image 0 example_args (example_state example_image)
     = Some (Some (LLVMError ''bad name''),
         \<lparr>wb = example_image, gen = Rng id 0, outs = [PatchingArchitecture ''i386'' 0]\<rparr>)
   \<and> patchMachOSlice (example_object\<lparr>sections := [category_section]\<rparr>)
      example_image 0 example_args (example_state example_image)
     = Some (None,
         \<lparr>wb = ''Bar'' @ [NUL, CHR 0x08, NUL, NUL, NUL, NUL, NUL, NUL, NUL], gen = Rng id 0,
          outs = [PatchingArchitecture ''i386'' 0, Found CATEGORY ''Foo'' 0,
                  ReplacedWith ''Bar'']\<rparr>)"
  by (simp add: eval_defs example_args_def example_state_def example_image_def class_section_def
      category_section_def unnamed_section_def example_object_def)

subsection \<open>C8\<close>

text \<open>
  Claim C8. A dry run that gets to the dry-run check of line 356 (the binary was created and
  read and the slices were patched without an early return) ends with exit code 0, nothing
  written and the file on disk as it was, whatever the mode. No dry run writes, also not one
  that ends early with exit code 1 on a fatal load error (a file that cannot be opened or
  read or is no Mach-O binary, a thin binary whose slice fails), and these are the only dry
  runs that do not end with exit code 0. In every run the file is written at most once, and
  what is written is the working buffer as it is after all slices have been processed.
\<close>

theorem dry_run_and_single_write:
  assumes "parseCommandLine (cli w) = Some args"
  shows "(dryRun args \<and> createBinary w = Inr Bin \<and> getFile w = Inr src \<and>
          patchBinary Bin src args \<lparr>wb = src, gen = seeded w, outs = []\<rparr> = Some (Inr x)
          \<longrightarrow> (\<exists>r. main w = Some r \<and> exit_code r = 0 \<and> writes_of (file_ops r) = [] \<and>
                   disk_after w r = disk w))
    \<and> (main w = Some r \<longrightarrow>
         (dryRun args \<longrightarrow>
            disk_after w r = disk w \<and> writes_of (file_ops r) = [] \<and>
            (exit_code r = 0 \<longleftrightarrow>
               (\<exists>Bin src x. createBinary w = Inr Bin \<and> getFile w = Inr src \<and>
                  patchBinary Bin src args \<lparr>wb = src, gen = seeded w, outs = []\<rparr> = Some (Inr x))))
         \<and> length (writes_of (file_ops r)) \<le> 1
         \<and> (\<forall>b \<in> set (writes_of (file_ops r)).
               \<exists>Bin src st errs. createBinary w = Inr Bin \<and> getFile w = Inr src \<and>
                  patchBinary Bin src args \<lparr>wb = src, gen = seeded w, outs = []\<rparr>
                    = Some (Inr (st, errs))
                  \<and> b = wb st \<and> disk_after w r = b))"
proof (intro conjI impI)
  assume a: "dryRun args \<and> createBinary w = Inr Bin \<and> getFile w = Inr src \<and>
          patchBinary Bin src args \<lparr>wb = src, gen = seeded w, outs = []\<rparr> = Some (Inr x)"
  obtain st errs where x: "x = (st, errs)" by (cases x)
  let ?r = "persist w args [CreateBinary (binaryPath args), GetFile (binaryPath args)] (st, errs)"
  from a x assms have "main w = Some ?r"
    by (simp add: main_Some)
  moreover from a have "exit_code ?r = 0" "writes_of (file_ops ?r) = []" "disk_after w ?r = disk w"
    by (simp_all add: persist_facts disk_after_def)
  ultimately show "\<exists>r. main w = Some r \<and> exit_code r = 0 \<and> writes_of (file_ops r) = [] \<and>
                   disk_after w r = disk w"
    by blast
next
  assume m: "main w = Some r"
  have "(dryRun args \<longrightarrow>
            disk_after w r = disk w \<and> writes_of (file_ops r) = [] \<and>
            (exit_code r = 0 \<longleftrightarrow>
               (\<exists>Bin src x. createBinary w = Inr Bin \<and> getFile w = Inr src \<and>
                  patchBinary Bin src args \<lparr>wb = src, gen = seeded w, outs = []\<rparr> = Some (Inr x))))
         \<and> length (writes_of (file_ops r)) \<le> 1
         \<and> (\<forall>b \<in> set (writes_of (file_ops r)).
               \<exists>Bin src st errs. createBinary w = Inr Bin \<and> getFile w = Inr src \<and>
                  patchBinary Bin src args \<lparr>wb = src, gen = seeded w, outs = []\<rparr>
                    = Some (Inr (st, errs))
                  \<and> b = wb st \<and> disk_after w r = b)"
  proof (cases "createBinary w")
    case (Inl E)
    with assms m show ?thesis by (auto simp: main_Some disk_after_def)
  next
    case (Inr Bin)
    note B = this
    show ?thesis
    proof (cases "getFile w")
      case (Inl EC)
      with assms m B show ?thesis by (auto simp: main_Some disk_after_def)
    next
      case (Inr src)
      note S = this
      from assms m B S obtain y where
        y: "patchBinary Bin src args \<lparr>wb = src, gen = seeded w, outs = []\<rparr> = Some y"
        by (cases "patchBinary Bin src args \<lparr>wb = src, gen = seeded w, outs = []\<rparr>")
           (simp_all add: main_Some)
      show ?thesis
      proof (cases y)
        case (Inl a)
        with assms m B S y show ?thesis
          by (cases a) (auto simp: main_Some disk_after_def)
      next
        case (Inr x)
        obtain st errs where x: "x = (st, errs)" by (cases x)
        from assms m B S y Inr x
        have r: "r = persist w args [CreateBinary (binaryPath args), GetFile (binaryPath args)]
                       (st, errs)"
          by (simp add: main_Some)
        show ?thesis
          using B S y Inr x
          by (auto simp: r persist_facts disk_after_def)
      qed
    qed
  qed
  then show "dryRun args \<Longrightarrow> disk_after w r = disk w"
    and "dryRun args \<Longrightarrow> writes_of (file_ops r) = []"
    and "dryRun args \<Longrightarrow> exit_code r = 0 \<longleftrightarrow>
               (\<exists>Bin src x. createBinary w = Inr Bin \<and> getFile w = Inr src \<and>
                  patchBinary Bin src args \<lparr>wb = src, gen = seeded w, outs = []\<rparr> = Some (Inr x))"
    and "length (writes_of (file_ops r)) \<le> 1"
    and "\<forall>b \<in> set (writes_of (file_ops r)).
               \<exists>Bin src st errs. createBinary w = Inr Bin \<and> getFile w = Inr src \<and>
                  patchBinary Bin src args \<lparr>wb = src, gen = seeded w, outs = []\<rparr>
                    = Some (Inr (st, errs))
                  \<and> b = wb st \<and> disk_after w r = b"
    by blast+
qed

text \<open>
  A dry run on the example binary in replace mode and in randomization mode, and the run in
  replace mode without the dry-run flag.
\<close>

theorem dry_run_and_single_write_witness:
  "parseCommandLine (cli dry_run_world) = Some (example_args\<lparr>dryRun := True\<rparr>)
   \<and> dryRun (example_args\<lparr>dryRun := True\<rparr>)
   \<and> createBinary dry_run_world = Inr (MachOObject example_object)
   \<and> getFile dry_run_world = Inr example_image
   \<and> patchBinary (MachOObject example_object) example_image (example_args\<lparr>dryRun := True\<rparr>)
         \<lparr>wb = example_image, gen = seeded dry_run_world, outs = []\<rparr>
       = Some (Inr (\<lparr>wb = ''Bar'' @ [NUL, CHR 0x08, NUL, NUL, NUL, NUL, NUL, NUL, NUL],
                     gen = Rng id 0,
                     outs = [PatchingArchitecture ''i386'' 0, SkippingExcluded ''Foo'',
                             Found CATEGORY ''Foo'' 0, ReplacedWith ''Bar'']\<rparr>, []))
   \<and> main dry_run_world =
       Some \<lparr>exit_code = 0, file_ops = [CreateBinary ''a.out'', GetFile ''a.out''],
             stdout = [PatchingArchitecture ''i386'' 0, SkippingExcluded ''Foo'',
               Found CATEGORY ''Foo'' 0, ReplacedWith ''Bar'', DryRunComplete],
             stderr = []\<rparr>
   \<and> disk_after dry_run_world
        \<lparr>exit_code = 0, file_ops = [CreateBinary ''a.out'', GetFile ''a.out''],
             stdout = [PatchingArchitecture ''i386'' 0, SkippingExcluded ''Foo'',
               Found CATEGORY ''Foo'' 0, ReplacedWith ''Bar'', DryRunComplete],
             stderr = []\<rparr> = disk dry_run_world
   \<and> main (dry_run_world\<lparr>cli := example_options\<lparr>opt_dry_run := True, opt_replace := []\<rparr>\<rparr>) =
       Some \<lparr>exit_code = 0, file_ops = [CreateBinary ''a.out'', GetFile ''a.out''],
             stdout = [PatchingArchitecture ''i386'' 0, SkippingExcluded ''Foo'',
               Found CATEGORY ''Foo'' 0, ReplacedWith ''abc'', DryRunComplete],
             stderr = []\<rparr>
   \<and> parseCommandLine (cli example_world) = Some example_args
   \<and> main example_world =
       Some \<lparr>exit_code = 0,
             file_ops = [CreateBinary ''a.out'', GetFile ''a.out'', OpenForWriting ''a.out'',
               Write (''Bar'' @ [NUL, CHR 0x08, NUL, NUL, NUL, NUL, NUL, NUL, NUL])],
             stdout = [PatchingArchitecture ''i386'' 0, SkippingExcluded ''Foo'',
               Found CATEGORY ''Foo'' 0, ReplacedWith ''Bar'', SuccessfullyPatched ''a.out''],
             stderr = []\<rparr>"
proof -
  note ex = example_options_def example_args_def example_image_def class_section_def
    category_section_def example_object_def example_world_def dry_run_world_def
  let ?r1 = "\<lparr>exit_code = 0, file_ops = [CreateBinary ''a.out'', GetFile ''a.out''],
             stdout = [PatchingArchitecture ''i386'' 0, SkippingExcluded ''Foo'',
               Found CATEGORY ''Foo'' 0, ReplacedWith ''Bar'', DryRunComplete],
             stderr = []\<rparr>"
  let ?r2 = "\<lparr>exit_code = 0,
             file_ops = [CreateBinary ''a.out'', GetFile ''a.out'', OpenForWriting ''a.out'',
               Write (''Bar'' @ [NUL, CHR 0x08, NUL, NUL, NUL, NUL, NUL, NUL, NUL])],
             stdout = [PatchingArchitecture ''i386'' 0, SkippingExcluded ''Foo'',
               Found CATEGORY ''Foo'' 0, ReplacedWith ''Bar'', SuccessfullyPatched ''a.out''],
             stderr = []\<rparr>"
  let ?x = "(\<lparr>wb = ''Bar'' @ [NUL, CHR 0x08, NUL, NUL, NUL, NUL, NUL, NUL, NUL],
                     gen = Rng id 0,
                     outs = [PatchingArchitecture ''i386'' 0, SkippingExcluded ''Foo'',
                             Found CATEGORY ''Foo'' 0, ReplacedWith ''Bar'']\<rparr>, [])"
  have h1: "parseCommandLine (cli dry_run_world) = Some (example_args\<lparr>dryRun := True\<rparr>)"
    by (simp add: main_defs ex)
  have h2: "dryRun (example_args\<lparr>dryRun := True\<rparr>) \<and>
      createBinary dry_run_world = Inr (MachOObject example_object) \<and>
      getFile dry_run_world = Inr example_image \<and>
      patchBinary (MachOObject example_object) example_image (example_args\<lparr>dryRun := True\<rparr>)
         \<lparr>wb = example_image, gen = seeded dry_run_world, outs = []\<rparr> = Some (Inr ?x)"
    by (simp add: main_defs ex eval_defs)
  have h3: "main dry_run_world = Some ?r1"
    by (simp add: main_defs ex eval_defs)
  have h4: "main (dry_run_world\<lparr>cli := example_options\<lparr>opt_dry_run := True, opt_replace := []\<rparr>\<rparr>) =
       Some \<lparr>exit_code = 0, file_ops = [CreateBinary ''a.out'', GetFile ''a.out''],
             stdout = [PatchingArchitecture ''i386'' 0, SkippingExcluded ''Foo'',
               Found CATEGORY ''Foo'' 0, ReplacedWith ''abc'', DryRunComplete],
             stderr = []\<rparr>"
    by (simp add: main_defs ex eval_defs)
  have g1: "parseCommandLine (cli example_world) = Some example_args"
    by (simp add: main_defs ex)
  have g2: "main example_world = Some ?r2"
    by (simp add: main_defs ex eval_defs)
  from dry_run_and_single_write [OF h1, of "MachOObject example_object" example_image ?x] h2
  obtain r where "main dry_run_world = Some r" and "disk_after dry_run_world r = disk dry_run_world"
    by blast
  with h3 have a: "disk_after dry_run_world ?r1 = disk dry_run_world" by simp
  from dry_run_and_single_write [OF g1, of _ _ _ ?r2] g2
  have "length (writes_of (file_ops ?r2)) \<le> 1" by blast
  with a h1 h2 h3 h4 g1 g2 show ?thesis by simp
qed

subsection \<open>C9\<close>

text \<open>
  Claim C9. The pass over the category list is the patch block applied, in order, to the
  names found for all its slots: every slot \<open>k < csize div PtrSize\<close> whose pointers resolve
  to a non-empty string contributes its name, and no name is left out on account of the
  exclusion set, which neither the search for the names nor the pass looks at. In a pass
  that returns, each of these names has the patch block applied at its turn, and the name
  is printed whenever the block writes (always in randomization mode, in replace mode when
  the pattern occurs), whether or not the name is in the exclusion set. The class-name
  loop, in contrast, skips an entry whose text is in the set.
\<close>

theorem category_names_not_excluded:
  assumes "PtrSize = (if is64Bit Obj then 8 else 4)"
  shows "patchCategoryListSection Section Obj src SliceOffset args st =
           (case sec_contents Section of
              Inl E \<Rightarrow> Some st
            | Inr csize \<Rightarrow>
                if csize + PtrSize < 2 ^ 32 then
                  (case categoryNames Obj src SliceOffset (SliceOffset + sec_offset Section) csize of
                     None \<Rightarrow> None
                   | Some es \<Rightarrow> patchAll CATEGORY args es st)
                else None)
    \<and> (categoryNames Obj src SliceOffset base csize = Some es \<longrightarrow>
         set es = {e. \<exists>k<csize div PtrSize.
                     categoryName Obj src SliceOffset (base + k * PtrSize) = Some (Some e)})
    \<and> (categoryName Obj src SliceOffset (base + i) = Some (Some (off, Name)) \<longrightarrow>
         categorySlot Obj src SliceOffset args base i st = patchName CATEGORY args off Name st)
    \<and> (patchCategoryListSection Section Obj src SliceOffset args st = Some st' \<and>
       sec_contents Section = Inr csize \<and>
       categoryNames Obj src SliceOffset (SliceOffset + sec_offset Section) csize
         = Some (es1 @ (off, Name) # es2) \<longrightarrow>
         (\<exists>st1 st2. patchAll CATEGORY args es1 st = Some st1 \<and>
                    patchName CATEGORY args off Name st1 = Some st2 \<and>
                    patchAll CATEGORY args es2 st2 = Some st') \<and>
         (\<not> quietMode args \<and>
          (pattern args = [] \<or>
           length (replacement args) = length (pattern args) \<and> sublist (pattern args) Name)
          \<longrightarrow> Found CATEGORY Name off \<in> set (outs st')))
    \<and> patchCategoryListSection Section Obj src SliceOffset (args\<lparr>excludedClasses := X\<rparr>) st =
        patchCategoryListSection Section Obj src SliceOffset args st
    \<and> (pos < clen \<and> cstringAt src (cbase + pos) = Some Name \<and> Name \<noteq> [] \<and>
       Name \<in> excludedClasses args
        \<longrightarrow> classNameLoop args src cbase clen pos st =
             classNameLoop args src cbase clen (pos + length Name + 1)
               (say args [SkippingExcluded Name] st))"
proof -
  have 1: "patchCategoryListSection Section Obj src SliceOffset args st =
           (case sec_contents Section of
              Inl E \<Rightarrow> Some st
            | Inr csize \<Rightarrow>
                if csize + PtrSize < 2 ^ 32 then
                  (case categoryNames Obj src SliceOffset (SliceOffset + sec_offset Section) csize of
                     None \<Rightarrow> None
                   | Some es \<Rightarrow> patchAll CATEGORY args es st)
                else None)"
    unfolding assms by (rule patchCategoryListSection_names)
  have 2: "set es = {e. \<exists>k<csize div PtrSize.
                     categoryName Obj src SliceOffset (base + k * PtrSize) = Some (Some e)}"
    if "categoryNames Obj src SliceOffset base csize = Some es"
    using categoryNames_set [OF assms that] .
  have 3: "categorySlot Obj src SliceOffset args base i st = patchName CATEGORY args off Name st"
    if "categoryName Obj src SliceOffset (base + i) = Some (Some (off, Name))"
    using that by (simp add: categorySlot_categoryName)
  have 4: "(\<exists>st1 st2. patchAll CATEGORY args es1 st = Some st1 \<and>
                    patchName CATEGORY args off Name st1 = Some st2 \<and>
                    patchAll CATEGORY args es2 st2 = Some st') \<and>
         (\<not> quietMode args \<and>
          (pattern args = [] \<or>
           length (replacement args) = length (pattern args) \<and> sublist (pattern args) Name)
          \<longrightarrow> Found CATEGORY Name off \<in> set (outs st'))"
    if h: "patchCategoryListSection Section Obj src SliceOffset args st = Some st' \<and>
       sec_contents Section = Inr csize \<and>
       categoryNames Obj src SliceOffset (SliceOffset + sec_offset Section) csize
         = Some (es1 @ (off, Name) # es2)"
  proof -
    from h 1 have a: "patchAll CATEGORY args (es1 @ (off, Name) # es2) st = Some st'"
      by (simp split: if_splits)
    then obtain st1 st2 where
      p1: "patchAll CATEGORY args es1 st = Some st1" and
      p2: "patchName CATEGORY args off Name st1 = Some st2" and
      p3: "patchAll CATEGORY args es2 st2 = Some st'"
      by (auto simp: patchAll_append split: option.splits)
    have "Found CATEGORY Name off \<in> set (outs st')"
      if "\<not> quietMode args" and "pattern args = [] \<or>
           length (replacement args) = length (pattern args) \<and> sublist (pattern args) Name"
      using patchName_found [OF p2 that] patchAll_outs [OF p3] by blast
    with p1 p2 p3 show ?thesis by blast
  qed
  have 5: "patchCategoryListSection Section Obj src SliceOffset (args\<lparr>excludedClasses := X\<rparr>) st =
        patchCategoryListSection Section Obj src SliceOffset args st"
    unfolding patchCategoryListSection_def categoryLoop_excludedClasses ..
  have 6: "classNameLoop args src cbase clen pos st =
             classNameLoop args src cbase clen (pos + length Name + 1)
               (say args [SkippingExcluded Name] st)"
    if "pos < clen \<and> cstringAt src (cbase + pos) = Some Name \<and> Name \<noteq> [] \<and>
       Name \<in> excludedClasses args"
    using that by (simp add: classNameLoop_skip)
  from 1 2 3 4 5 6 show ?thesis by blast
qed

text \<open>
  The pass on the slice with two categories, the first of which bears the excluded name
  \<open>Foo\<close>, and the class-name loop on the same string.
\<close>

theorem category_names_not_excluded_witness:
  "(4 :: nat) = (if is64Bit chain_object then 8 else 4)
   \<and> sec_contents chain_section = Inr 8
   \<and> categoryNames chain_object chain_image 0 (0 + sec_offset chain_section) 8
       = Some ([] @ (8, ''Foo'') # [(12, ''Zoo'')])
   \<and> ''Foo'' \<in> excludedClasses example_args
   \<and> patchCategoryListSection chain_section chain_object chain_image 0 example_args
        (example_state chain_image)
     = Some \<lparr>wb = [CHR 0x10, CHR 0x10, NUL, NUL, CHR 0x14, CHR 0x10, NUL, NUL] @ ''Bar'' @ [NUL]
                @ ''Zoo'' @ [NUL] @ [CHR 0x08, CHR 0x10, NUL, NUL, CHR 0x0C, CHR 0x10, NUL, NUL],
             gen = Rng id 0, outs = [Found CATEGORY ''Foo'' 8, ReplacedWith ''Bar'']\<rparr>
   \<and> patchName CATEGORY example_args 8 ''Foo'' (example_state chain_image)
     = Some \<lparr>wb = [CHR 0x10, CHR 0x10, NUL, NUL, CHR 0x14, CHR 0x10, NUL, NUL] @ ''Bar'' @ [NUL]
                @ ''Zoo'' @ [NUL] @ [CHR 0x08, CHR 0x10, NUL, NUL, CHR 0x0C, CHR 0x10, NUL, NUL],
             gen = Rng id 0, outs = [Found CATEGORY ''Foo'' 8, ReplacedWith ''Bar'']\<rparr>
   \<and> Found CATEGORY ''Foo'' 8 \<in> set [Found CATEGORY ''Foo'' 8, ReplacedWith ''Bar'']
   \<and> patchCategoryListSection chain_section chain_object chain_image 0
        (example_args\<lparr>pattern := [], replacement := []\<rparr>) (example_state chain_image)
     = Some \<lparr>wb = [CHR 0x10, CHR 0x10, NUL, NUL, CHR 0x14, CHR 0x10, NUL, NUL] @ ''abc'' @ [NUL]
                @ ''def'' @ [NUL] @ [CHR 0x08, CHR 0x10, NUL, NUL, CHR 0x0C, CHR 0x10, NUL, NUL],
             gen = Rng id 6,
             outs = [Found CATEGORY ''Foo'' 8, ReplacedWith ''abc'',
                     Found CATEGORY ''Zoo'' 12, ReplacedWith ''def'']\<rparr>
   \<and> cstringAt chain_image (8 + 0) = Some ''Foo''
   \<and> classNameLoop example_args chain_image 8 4 0 (example_state chain_image)
       = Some \<lparr>wb = chain_image, gen = Rng id 0, outs = [SkippingExcluded ''Foo'']\<rparr>"
proof -
  note ex = example_args_def example_state_def chain_image_def chain_section_def chain_object_def
  let ?st' = "\<lparr>wb = [CHR 0x10, CHR 0x10, NUL, NUL, CHR 0x14, CHR 0x10, NUL, NUL] @ ''Bar'' @ [NUL]
                @ ''Zoo'' @ [NUL] @ [CHR 0x08, CHR 0x10, NUL, NUL, CHR 0x0C, CHR 0x10, NUL, NUL],
             gen = Rng id 0, outs = [Found CATEGORY ''Foo'' 8, ReplacedWith ''Bar'']\<rparr>"
  have h: "(4 :: nat) = (if is64Bit chain_object then 8 else 4)"
    by (simp add: chain_object_def)
  have c: "sec_contents chain_section = Inr 8"
    by (simp add: chain_section_def)
  have n: "categoryNames chain_object chain_image 0 (0 + sec_offset chain_section) 8
      = Some ([] @ (8, ''Foo'') # [(12, ''Zoo'')])"
    by (simp add: categoryNames_def categoryName_def eval_defs ex upt_rec)
  have x: "''Foo'' \<in> excludedClasses example_args"
    by (simp add: example_args_def)
  have pa: "patchAll CATEGORY example_args ([] @ (8, ''Foo'') # [(12, ''Zoo'')])
      (example_state chain_image) = Some ?st'"
    by (simp add: eval_defs ex)
  have pn: "patchName CATEGORY example_args 8 ''Foo'' (example_state chain_image) = Some ?st'"
    by (simp add: eval_defs ex)
  have r: "patchCategoryListSection chain_section chain_object chain_image 0
        (example_args\<lparr>pattern := [], replacement := []\<rparr>) (example_state chain_image)
     = Some \<lparr>wb = [CHR 0x10, CHR 0x10, NUL, NUL, CHR 0x14, CHR 0x10, NUL, NUL] @ ''abc'' @ [NUL]
                @ ''def'' @ [NUL] @ [CHR 0x08, CHR 0x10, NUL, NUL, CHR 0x0C, CHR 0x10, NUL, NUL],
             gen = Rng id 6,
             outs = [Found CATEGORY ''Foo'' 8, ReplacedWith ''abc'',
                     Found CATEGORY ''Zoo'' 12, ReplacedWith ''def'']\<rparr>"
    by (simp add: eval_defs ex)
  have s: "cstringAt chain_image (8 + 0) = Some ''Foo''"
    by (simp add: eval_defs ex)
  have l: "classNameLoop example_args chain_image 8 4 (0 + length ''Foo'' + 1)
      (say example_args [SkippingExcluded ''Foo''] (example_state chain_image))
       = Some \<lparr>wb = chain_image, gen = Rng id 0, outs = [SkippingExcluded ''Foo'']\<rparr>"
    by (simp add: eval_defs ex)
  have q: "\<not> quietMode example_args \<and>
      (pattern example_args = [] \<or>
       length (replacement example_args) = length (pattern example_args) \<and>
       sublist (pattern example_args) ''Foo'')"
    by (simp add: example_args_def)
  note t = category_names_not_excluded [OF h, where Section = chain_section
      and src = chain_image and SliceOffset = 0 and args = example_args
      and st = "example_state chain_image" and pos = 0 and clen = 4 and cbase = 8
      and Name = "''Foo''" and off = 8 and ?es1.0 = "[]" and ?es2.0 = "[(12, ''Zoo'')]"
      and csize = 8 and st' = ?st']
  from t c n pa
  have pass: "patchCategoryListSection chain_section chain_object chain_image 0 example_args
        (example_state chain_image) = Some ?st'"
    by (simp add: chain_section_def)
  with t c n q have f: "Found CATEGORY ''Foo'' 8 \<in> set (outs ?st')"
    by blast
  from t x s
  have "classNameLoop example_args chain_image 8 4 0 (example_state chain_image)
      = classNameLoop example_args chain_image 8 4 (0 + length ''Foo'' + 1)
          (say example_args [SkippingExcluded ''Foo''] (example_state chain_image))"
    by simp
  with l h c n x pn r s pass f show ?thesis by simp
qed

subsection \<open>C10\<close>

text \<open>
  Claim C10. When the patching of a slice returns an error, a universal binary has the
  error printed and the loop goes on with the remaining slices; the run then ends with exit
  code 0, in a dry run with nothing written and otherwise, the file being open to writing,
  with the working buffer written as it is after the remaining slices. For a thin binary
  the same error ends the run with exit code 1 and nothing written. (That a file which
  cannot be opened for writing ends any run that is no dry run with exit code 1 is the
  write error of lines 363-368, not a matter of the slice failure.)
\<close>

theorem slice_failure_asymmetry:
  assumes "parseCommandLine (cli w) = Some args"
      and "getFile w = Inr src"
      and "patchMachOSlice Obj src Offset args st1 = Some (Some E, st2)"
  shows "(createBinary w = Inr (MachOUniversalBinary (before @ (Offset, Inr Obj) # rest)) \<and>
          universalLoop src args before (\<lparr>wb = src, gen = seeded w, outs = []\<rparr>, [])
            = Some (st1, errs1) \<and>
          universalLoop src args rest (st2, errs1 @ [FailedToPatchSlice E]) = Some (st, errs) \<and>
          (dryRun args \<or> openForWriting w = None)
          \<longrightarrow> (\<exists>r. main w = Some r \<and> exit_code r = 0 \<and> stderr r = errs \<and>
                   FailedToPatchSlice E \<in> set (stderr r) \<and>
                   writes_of (file_ops r) = (if dryRun args then [] else [wb st]) \<and>
                   disk_after w r = (if dryRun args then disk w else wb st)))
    \<and> (createBinary w = Inr (MachOObject Obj) \<and> Offset = 0 \<and>
        st1 = \<lparr>wb = src, gen = seeded w, outs = []\<rparr>
          \<longrightarrow> (\<exists>r. main w = Some r \<and> exit_code r = 1 \<and> stderr r = [FailedToPatchFile E] \<and>
                   writes_of (file_ops r) = [] \<and> disk_after w r = disk w))"
proof (intro conjI impI)
  assume a: "createBinary w = Inr (MachOUniversalBinary (before @ (Offset, Inr Obj) # rest)) \<and>
          universalLoop src args before (\<lparr>wb = src, gen = seeded w, outs = []\<rparr>, [])
            = Some (st1, errs1) \<and>
          universalLoop src args rest (st2, errs1 @ [FailedToPatchSlice E]) = Some (st, errs) \<and>
          (dryRun args \<or> openForWriting w = None)"
  let ?st0 = "\<lparr>wb = src, gen = seeded w, outs = []\<rparr>"
  let ?ops = "[CreateBinary (binaryPath args), GetFile (binaryPath args)]"
  let ?r = "persist w args ?ops (st, errs)"
  from a have l: "universalLoop src args rest (st2, errs1 @ [FailedToPatchSlice E])
      = Some (st, errs)" by simp
  have loop: "universalLoop src args (before @ (Offset, Inr Obj) # rest) (?st0, [])
      = Some (st, errs)"
    using a assms(3) by (simp add: universalLoop_append)
  with a assms(1,2) have m: "main w = Some ?r"
    by (simp add: main_Some patchBinary_def)
  from universalLoop_errs [OF l] have e: "FailedToPatchSlice E \<in> set errs" by auto
  from a have w: "dryRun args \<or> openForWriting w = None" by simp
  then have "exit_code ?r = 0" and "stderr ?r = errs"
    and "writes_of (file_ops ?r) = (if dryRun args then [] else [wb st])"
    and "disk_after w ?r = (if dryRun args then disk w else wb st)"
    by (auto simp: persist_def disk_after_def)
  with m e show "\<exists>r. main w = Some r \<and> exit_code r = 0 \<and> stderr r = errs \<and>
                   FailedToPatchSlice E \<in> set (stderr r) \<and>
                   writes_of (file_ops r) = (if dryRun args then [] else [wb st]) \<and>
                   disk_after w r = (if dryRun args then disk w else wb st)"
    by auto
next
  assume a: "createBinary w = Inr (MachOObject Obj) \<and> Offset = 0 \<and>
        st1 = \<lparr>wb = src, gen = seeded w, outs = []\<rparr>"
  let ?r = "\<lparr>exit_code = 1,
      file_ops = [CreateBinary (binaryPath args), GetFile (binaryPath args)],
      stdout = outs st2, stderr = [FailedToPatchFile E]\<rparr>"
  from a assms have "main w = Some ?r"
    by (simp add: main_Some patchBinary_def)
  moreover have "exit_code ?r = 1" "stderr ?r = [FailedToPatchFile E]"
    "writes_of (file_ops ?r) = []" "disk_after w ?r = disk w"
    by (simp_all add: disk_after_def)
  ultimately show "\<exists>r. main w = Some r \<and> exit_code r = 1 \<and> stderr r = [FailedToPatchFile E] \<and>
                   writes_of (file_ops r) = [] \<and> disk_after w r = disk w"
    by blast
qed

text \<open>
  A universal binary whose first slice fails and whose second slice is patched, with and
  without the dry-run flag, and the failing slice as a thin binary.
\<close>

theorem slice_failure_asymmetry_witness:
  "parseCommandLine (cli universal_world) = Some example_args
   \<and> getFile universal_world = Inr (example_image @ example_image)
   \<and> openForWriting universal_world = None
   \<and> patchMachOSlice failing_object (example_image @ example_image) 0 example_args
        \<lparr>wb = example_image @ example_image, gen = Rng id 0, outs = []\<rparr>
       = Some (Some (LLVMError ''bad name''),
           \<lparr>wb = example_image @ example_image, gen = Rng id 0,
            outs = [PatchingArchitecture ''arm64'' 0]\<rparr>)
   \<and> main universal_world =
       Some \<lparr>exit_code = 0,
             file_ops = [CreateBinary ''a.out'', GetFile ''a.out'', OpenForWriting ''a.out'',
               Write (example_image @ ''Bar'' @ [NUL, CHR 0x08, NUL, NUL, NUL, NUL, NUL, NUL, NUL])],
             stdout = [PatchingArchitecture ''arm64'' 0, PatchingArchitecture ''i386'' 12,
               SkippingExcluded ''Foo'', Found CATEGORY ''Foo'' 12, ReplacedWith ''Bar'',
               SuccessfullyPatched ''a.out''],
             stderr = [FailedToPatchSlice (LLVMError ''bad name'')]\<rparr>
   \<and> main universal_dry_run_world =
       Some \<lparr>exit_code = 0, file_ops = [CreateBinary ''a.out'', GetFile ''a.out''],
             stdout = [PatchingArchitecture ''arm64'' 0, PatchingArchitecture ''i386'' 12,
               SkippingExcluded ''Foo'', Found CATEGORY ''Foo'' 12, ReplacedWith ''Bar'',
               DryRunComplete],
             stderr = [FailedToPatchSlice (LLVMError ''bad name'')]\<rparr>
   \<and> main thin_failing_world =
       Some \<lparr>exit_code = 1, file_ops = [CreateBinary ''a.out'', GetFile ''a.out''],
             stdout = [PatchingArchitecture ''arm64'' 0],
             stderr = [FailedToPatchFile (LLVMError ''bad name'')]\<rparr>
   \<and> disk_after universal_world
         \<lparr>exit_code = 0,
             file_ops = [CreateBinary ''a.out'', GetFile ''a.out'', OpenForWriting ''a.out'',
               Write (example_image @ ''Bar'' @ [NUL, CHR 0x08, NUL, NUL, NUL, NUL, NUL, NUL, NUL])],
             stdout = [PatchingArchitecture ''arm64'' 0, PatchingArchitecture ''i386'' 12,
               SkippingExcluded ''Foo'', Found CATEGORY ''Foo'' 12, ReplacedWith ''Bar'',
               SuccessfullyPatched ''a.out''],
             stderr = [FailedToPatchSlice (LLVMError ''bad name'')]\<rparr>
       = example_image @ ''Bar'' @ [NUL, CHR 0x08, NUL, NUL, NUL, NUL, NUL, NUL, NUL]
   \<and> disk_after universal_dry_run_world
         \<lparr>exit_code = 0, file_ops = [CreateBinary ''a.out'', GetFile ''a.out''],
             stdout = [PatchingArchitecture ''arm64'' 0, PatchingArchitecture ''i386'' 12,
               SkippingExcluded ''Foo'', Found CATEGORY ''Foo'' 12, ReplacedWith ''Bar'',
               DryRunComplete],
             stderr = [FailedToPatchSlice (LLVMError ''bad name'')]\<rparr>
       = disk universal_dry_run_world
   \<and> disk_after thin_failing_world
         \<lparr>exit_code = 1, file_ops = [CreateBinary ''a.out'', GetFile ''a.out''],
             stdout = [PatchingArchitecture ''arm64'' 0],
             stderr = [FailedToPatchFile (LLVMError ''bad name'')]\<rparr> = disk thin_failing_world"
proof -
  note ex = example_options_def example_args_def example_image_def class_section_def
    category_section_def unnamed_section_def example_object_def example_world_def
    failing_object_def universal_world_def universal_dry_run_world_def
    thin_failing_world_def
  let ?img = "example_image @ example_image"
  let ?out = "example_image @ ''Bar'' @ [NUL, CHR 0x08, NUL, NUL, NUL, NUL, NUL, NUL, NUL]"
  let ?E = "LLVMError ''bad name''"
  let ?st0 = "\<lparr>wb = ?img, gen = Rng id 0, outs = []\<rparr>"
  let ?st2 = "\<lparr>wb = ?img, gen = Rng id 0, outs = [PatchingArchitecture ''arm64'' 0]\<rparr>"
  let ?fin = "\<lparr>wb = ?out, gen = Rng id 0,
      outs = [PatchingArchitecture ''arm64'' 0, PatchingArchitecture ''i386'' 12,
               SkippingExcluded ''Foo'', Found CATEGORY ''Foo'' 12, ReplacedWith ''Bar'']\<rparr>"
  let ?r = "\<lparr>exit_code = 0,
             file_ops = [CreateBinary ''a.out'', GetFile ''a.out'', OpenForWriting ''a.out'',
               Write ?out],
             stdout = [PatchingArchitecture ''arm64'' 0, PatchingArchitecture ''i386'' 12,
               SkippingExcluded ''Foo'', Found CATEGORY ''Foo'' 12, ReplacedWith ''Bar'',
               SuccessfullyPatched ''a.out''],
             stderr = [FailedToPatchSlice ?E]\<rparr>"
  let ?rd = "\<lparr>exit_code = 0, file_ops = [CreateBinary ''a.out'', GetFile ''a.out''],
             stdout = [PatchingArchitecture ''arm64'' 0, PatchingArchitecture ''i386'' 12,
               SkippingExcluded ''Foo'', Found CATEGORY ''Foo'' 12, ReplacedWith ''Bar'',
               DryRunComplete],
             stderr = [FailedToPatchSlice ?E]\<rparr>"
  let ?rt = "\<lparr>exit_code = 1, file_ops = [CreateBinary ''a.out'', GetFile ''a.out''],
             stdout = [PatchingArchitecture ''arm64'' 0],
             stderr = [FailedToPatchFile ?E]\<rparr>"
  have h1: "parseCommandLine (cli universal_world) = Some example_args"
    by (simp add: main_defs ex)
  have h2: "getFile universal_world = Inr ?img"
    by (simp add: ex)
  have h3: "patchMachOSlice failing_object ?img 0 example_args ?st0 = Some (Some ?E, ?st2)"
    by (simp add: ex eval_defs)
  have h4: "main universal_world = Some ?r"
    by (simp add: main_defs ex eval_defs)
  have h5: "createBinary universal_world =
       Inr (MachOUniversalBinary ([] @ (0, Inr failing_object) # [(12, Inr example_object)])) \<and>
     universalLoop ?img example_args [] (\<lparr>wb = ?img, gen = seeded universal_world, outs = []\<rparr>, [])
       = Some (?st0, []) \<and>
     universalLoop ?img example_args [(12, Inr example_object)] (?st2, [] @ [FailedToPatchSlice ?E])
       = Some (?fin, [FailedToPatchSlice ?E]) \<and>
     (dryRun example_args \<or> openForWriting universal_world = None)"
    by (simp add: ex eval_defs)
  have d1: "parseCommandLine (cli universal_dry_run_world) = Some (example_args\<lparr>dryRun := True\<rparr>)"
    by (simp add: main_defs ex)
  have d2: "getFile universal_dry_run_world = Inr ?img"
    by (simp add: ex)
  have d3: "patchMachOSlice failing_object ?img 0 (example_args\<lparr>dryRun := True\<rparr>) ?st0
      = Some (Some ?E, ?st2)"
    by (simp add: ex eval_defs)
  have d4: "main universal_dry_run_world = Some ?rd"
    by (simp add: main_defs ex eval_defs)
  have d5: "createBinary universal_dry_run_world =
       Inr (MachOUniversalBinary ([] @ (0, Inr failing_object) # [(12, Inr example_object)])) \<and>
     universalLoop ?img (example_args\<lparr>dryRun := True\<rparr>) []
       (\<lparr>wb = ?img, gen = seeded universal_dry_run_world, outs = []\<rparr>, [])
       = Some (?st0, []) \<and>
     universalLoop ?img (example_args\<lparr>dryRun := True\<rparr>) [(12, Inr example_object)]
       (?st2, [] @ [FailedToPatchSlice ?E])
       = Some (?fin, [FailedToPatchSlice ?E]) \<and>
     (dryRun (example_args\<lparr>dryRun := True\<rparr>) \<or> openForWriting universal_dry_run_world = None)"
    by (simp add: ex eval_defs)
  have t1: "parseCommandLine (cli thin_failing_world) = Some example_args"
    by (simp add: main_defs ex)
  have t2: "getFile thin_failing_world = Inr example_image"
    by (simp add: ex)
  have t3: "patchMachOSlice failing_object example_image 0 example_args
       \<lparr>wb = example_image, gen = Rng id 0, outs = []\<rparr>
       = Some (Some ?E,
          \<lparr>wb = example_image, gen = Rng id 0, outs = [PatchingArchitecture ''arm64'' 0]\<rparr>)"
    by (simp add: ex eval_defs)
  have t4: "main thin_failing_world = Some ?rt"
    by (simp add: main_defs ex eval_defs)
  have t5: "createBinary thin_failing_world = Inr (MachOObject failing_object) \<and> (0::nat) = 0 \<and>
      \<lparr>wb = example_image, gen = Rng id 0, outs = []\<rparr>
        = \<lparr>wb = example_image, gen = seeded thin_failing_world, outs = []\<rparr>"
    by (simp add: ex)
  have o: "openForWriting universal_world = None"
    by (simp add: ex)
  have nd: "\<not> dryRun example_args"
    by (simp add: example_args_def)
  from slice_failure_asymmetry [OF h1 h2 h3] h5
  obtain r where "main universal_world = Some r"
    and "disk_after universal_world r = (if dryRun example_args then disk universal_world else wb ?fin)"
    by blast
  with h4 nd have a: "disk_after universal_world ?r = ?out" by simp
  from slice_failure_asymmetry [OF d1 d2 d3] d5
  obtain r where "main universal_dry_run_world = Some r"
    and "disk_after universal_dry_run_world r =
      (if dryRun (example_args\<lparr>dryRun := True\<rparr>) then disk universal_dry_run_world else wb ?fin)"
    by blast
  with d4 have b: "disk_after universal_dry_run_world ?rd = disk universal_dry_run_world" by simp
  from slice_failure_asymmetry [OF t1 t2 t3] t5
  obtain r where "main thin_failing_world = Some r"
    and "disk_after thin_failing_world r = disk thin_failing_world"
    by blast
  with t4 have c: "disk_after thin_failing_world ?rt = disk thin_failing_world" by simp
  from a b c h1 h2 h3 h4 d4 t4 o show ?thesis by simp
qed

end
